theory Spec2Isabelle
  imports Complex_Main "HOL-Library.Log_Nat"
begin

section \<open>JavaScript numbers\<close>

text \<open>
  A JavaScript number is an IEEE-754 binary64 value: NaN, an infinity, or a finite double,
  which is a rational. The result of an arithmetic operation on finite doubles is the
  exact result rounded to the nearest double, ties to the even significand (\<open>rnd\<close>); a
  rounded magnitude of \<open>2^1024\<close> or more, that is one in the binade 1024 or above, is an
  infinity (\<open>toDouble\<close>). The model has a single zero: the engine never divides by a zero,
  so the sign of a zero is not observable in its results.
\<close>

definition round_even :: "rat \<Rightarrow> int" where
  "round_even y =
     (let f = \<lfloor>y\<rfloor>; d = y - of_int f
      in if d < 1/2 then f else if 1/2 < d then f + 1 else if even f then f else f + 1)"

text \<open>\<open>binade x\<close> is the exponent \<open>e\<close> with \<open>2^e \<le> |x| < 2^(e+1)\<close>, for \<open>x \<noteq> 0\<close>.\<close>

definition binade :: "rat \<Rightarrow> int" where
  "binade x =
     (let (p, q) = quotient_of \<bar>x\<bar>; d = bitlen p - bitlen q
      in if 2 powi d \<le> \<bar>x\<bar> then d else d - 1)"

text \<open>The spacing of the doubles around \<open>x\<close>: 53 significant bits, subnormal below \<open>2^-1022\<close>.\<close>

definition quantum :: "rat \<Rightarrow> rat" where
  "quantum x = 2 powi (max (binade x) (- 1022) - 52)"

definition rnd :: "rat \<Rightarrow> rat" where
  "rnd x = (if x = 0 then 0 else of_int (round_even (x / quantum x)) * quantum x)"

datatype jsnum = Fin rat | PosInf | NegInf | NaN

definition toDouble :: "rat \<Rightarrow> jsnum" where
  "toDouble r =
     (let y = rnd r
      in if y = 0 \<or> binade y < 1024 then Fin y else if 0 < y then PosInf else NegInf)"

text \<open>A decimal literal of the source denotes the double nearest to it.\<close>

definition lit :: "rat \<Rightarrow> jsnum" where
  "lit c = toDouble c"

fun positive :: "jsnum \<Rightarrow> bool" where
  "positive (Fin x) = (0 < x)"
| "positive PosInf = True"
| "positive NegInf = False"
| "positive NaN = False"

fun jneg :: "jsnum \<Rightarrow> jsnum" where
  "jneg (Fin x) = Fin (- x)"
| "jneg PosInf = NegInf"
| "jneg NegInf = PosInf"
| "jneg NaN = NaN"

text \<open>\<open>a + b\<close>\<close>

fun jadd :: "jsnum \<Rightarrow> jsnum \<Rightarrow> jsnum" where
  "jadd NaN b = NaN"
| "jadd a NaN = NaN"
| "jadd (Fin a) (Fin b) = toDouble (a + b)"
| "jadd PosInf NegInf = NaN"
| "jadd NegInf PosInf = NaN"
| "jadd PosInf b = PosInf"
| "jadd a PosInf = PosInf"
| "jadd NegInf b = NegInf"
| "jadd a NegInf = NegInf"

text \<open>\<open>a - b\<close>\<close>

definition jsub :: "jsnum \<Rightarrow> jsnum \<Rightarrow> jsnum" where
  "jsub a b = jadd a (jneg b)"

text \<open>\<open>a * b\<close>\<close>

fun jmul :: "jsnum \<Rightarrow> jsnum \<Rightarrow> jsnum" where
  "jmul NaN b = NaN"
| "jmul a NaN = NaN"
| "jmul (Fin a) (Fin b) = toDouble (a * b)"
| "jmul a b =
     (if a = Fin 0 \<or> b = Fin 0 then NaN
      else if positive a = positive b then PosInf else NegInf)"

text \<open>\<open>a / b\<close>; a zero divisor is taken as \<open>+0\<close>.\<close>

fun jdiv :: "jsnum \<Rightarrow> jsnum \<Rightarrow> jsnum" where
  "jdiv NaN b = NaN"
| "jdiv a NaN = NaN"
| "jdiv (Fin a) (Fin b) =
     (if b = 0 then (if a = 0 then NaN else if 0 < a then PosInf else NegInf)
      else toDouble (a / b))"
| "jdiv (Fin a) b = Fin 0"
| "jdiv a (Fin b) = (if positive a = (0 \<le> b) then PosInf else NegInf)"
| "jdiv a b = NaN"

definition trunc :: "rat \<Rightarrow> int" where
  "trunc z = (if 0 \<le> z then \<lfloor>z\<rfloor> else \<lceil>z\<rceil>)"

text \<open>
  \<open>a % b\<close>: the remainder of the truncated division, with the sign of the dividend. The
  remainder of two doubles is a double, so the rounding in \<open>toDouble\<close> changes nothing on
  the values the program has.
\<close>

fun jrem :: "jsnum \<Rightarrow> jsnum \<Rightarrow> jsnum" where
  "jrem NaN b = NaN"
| "jrem a NaN = NaN"
| "jrem (Fin a) (Fin b) =
     (if b = 0 then NaN else toDouble (a - b * of_int (trunc (a / b))))"
| "jrem (Fin a) b = Fin a"
| "jrem a b = NaN"

text \<open>\<open>a < b\<close>, \<open>a > b\<close>, \<open>a >= b\<close>: false as soon as one side is NaN.\<close>

fun jlt :: "jsnum \<Rightarrow> jsnum \<Rightarrow> bool" where
  "jlt NaN b = False"
| "jlt a NaN = False"
| "jlt (Fin a) (Fin b) = (a < b)"
| "jlt a NegInf = False"
| "jlt NegInf b = True"
| "jlt PosInf b = False"
| "jlt a PosInf = True"

definition jgt :: "jsnum \<Rightarrow> jsnum \<Rightarrow> bool" where
  "jgt a b = jlt b a"

definition jge :: "jsnum \<Rightarrow> jsnum \<Rightarrow> bool" where
  "jge a b = (a \<noteq> NaN \<and> b \<noteq> NaN \<and> \<not> jlt a b)"

definition isNaN :: "jsnum \<Rightarrow> bool" where
  "isNaN v = (v = NaN)"

fun Math_abs :: "jsnum \<Rightarrow> jsnum" where
  "Math_abs (Fin x) = Fin \<bar>x\<bar>"
| "Math_abs NaN = NaN"
| "Math_abs a = PosInf"

definition Math_min :: "jsnum \<Rightarrow> jsnum \<Rightarrow> jsnum" where
  "Math_min a b = (if a = NaN \<or> b = NaN then NaN else if jlt b a then b else a)"

section \<open>JavaScript values\<close>

text \<open>
  The values an input can be built from: \<open>undefined\<close>, \<open>null\<close>, booleans, numbers,
  strings, arrays, and plain objects (a list of own properties; the first entry of a key
  is the property). Functions, symbols, getters and changed prototypes are outside the
  model.
\<close>

datatype jsval =
    JUndefined
  | JNull
  | JBool bool
  | JNum jsnum
  | JStr string
  | JArr "jsval list"
  | JObj "(string \<times> jsval) list"

datatype error = TypeError

text \<open>
  The coercions of the JavaScript runtime that the program can reach but that are no
  part of it are parameters: the number a string denotes, the number an array or an
  object converts to (which can throw), and the property key a number converts to.
\<close>

record runtime =
  StringToNumber :: "string \<Rightarrow> jsnum"
  ObjectToNumber :: "jsval \<Rightarrow> error + jsnum"
  NumberToString :: "jsnum \<Rightarrow> string"

fun truthy :: "jsval \<Rightarrow> bool" where
  "truthy JUndefined = False"
| "truthy JNull = False"
| "truthy (JBool b) = b"
| "truthy (JNum (Fin x)) = (x \<noteq> 0)"
| "truthy (JNum NaN) = False"
| "truthy (JNum n) = True"
| "truthy (JStr s) = (s \<noteq> [])"
| "truthy (JArr xs) = True"
| "truthy (JObj kvs) = True"

fun isArray :: "jsval \<Rightarrow> bool" where
  "isArray (JArr xs) = True"
| "isArray v = False"

text \<open>The elements a \<open>for \<dots> of\<close> loop over an array visits.\<close>

fun elements :: "jsval \<Rightarrow> jsval list" where
  "elements (JArr xs) = xs"
| "elements v = []"

text \<open>
  \<open>v.k\<close> for a value that is neither \<open>undefined\<close> nor \<open>null\<close> and a name \<open>k\<close> the
  program reads: one of its field names, or \<open>length\<close>.
\<close>

fun getProp :: "jsval \<Rightarrow> string \<Rightarrow> jsval" where
  "getProp (JObj kvs) k = (case map_of kvs k of Some v \<Rightarrow> v | None \<Rightarrow> JUndefined)"
| "getProp (JArr xs) k =
     (if k = ''length'' then JNum (Fin (of_nat (length xs))) else JUndefined)"
| "getProp (JStr s) k =
     (if k = ''length'' then JNum (Fin (of_nat (length s))) else JUndefined)"
| "getProp v k = JUndefined"

text \<open>
  \<open>const { k = d } = v || {}\<close>: a falsy \<open>v\<close> is replaced by the empty object, and the
  default \<open>d\<close> replaces a property that is \<open>undefined\<close>, and no other.
\<close>

definition destructure :: "jsval \<Rightarrow> string \<Rightarrow> jsval \<Rightarrow> jsval" where
  "destructure v k d =
     (let prop = getProp (if truthy v then v else JObj []) k
      in if prop = JUndefined then d else prop)"

text \<open>\<open>Number(c)\<close>, which is also the conversion of an operand of \<open>-\<close>.\<close>

fun toNumber :: "runtime \<Rightarrow> jsval \<Rightarrow> error + jsnum" where
  "toNumber rt JUndefined = Inr NaN"
| "toNumber rt JNull = Inr (Fin 0)"
| "toNumber rt (JBool b) = Inr (Fin (if b then 1 else 0))"
| "toNumber rt (JNum n) = Inr n"
| "toNumber rt (JStr s) = Inr (StringToNumber rt s)"
| "toNumber rt v = ObjectToNumber rt v"

text \<open>
  \<open>v[v.length - 1]\<close>: reading \<open>length\<close> of \<open>null\<close> throws; an array or a string gives its
  last element, or \<open>undefined\<close> when it is empty (the key is then \<open>-1\<close>); a number or a
  boolean has no \<open>length\<close>, and no property \<open>NaN\<close>; an object is read at the key its own
  \<open>length\<close> property leads to.
\<close>

fun lastEntry :: "runtime \<Rightarrow> jsval \<Rightarrow> error + jsval" where
  "lastEntry rt JUndefined = Inl TypeError"
| "lastEntry rt JNull = Inl TypeError"
| "lastEntry rt (JArr xs) = Inr (if xs = [] then JUndefined else last xs)"
| "lastEntry rt (JStr s) = Inr (if s = [] then JUndefined else JStr [last s])"
| "lastEntry rt (JObj kvs) =
     (case toNumber rt (getProp (JObj kvs) ''length'') of
        Inl e \<Rightarrow> Inl e
      | Inr n \<Rightarrow> Inr (getProp (JObj kvs) (NumberToString rt (jsub n (lit 1)))))"
| "lastEntry rt v = Inr JUndefined"

section \<open>The prediction engine\<close>

record weightConfig =
  pattern :: jsnum
  cardPoints :: jsnum
  downRoad :: jsnum

text \<open>The state of a \<open>PredictionEngine\<close> object is its \<open>weights\<close> field.\<close>

record engine =
  weights :: weightConfig

text \<open>\<open>new PredictionEngine()\<close>\<close>

definition PredictionEngine :: engine where
  "PredictionEngine =
     \<lparr>weights = \<lparr>pattern = lit 0.4, cardPoints = lit 0.3, downRoad = lit 0.3\<rparr>\<rparr>"

record decision =
  side :: string
  sideText :: "nat list"

record rawScores =
  patternScore :: jsnum
  cardScore :: jsnum
  downRoadScore :: jsnum
  totalScore :: jsnum

record prediction = decision +
  confidence :: jsnum
  raw :: rawScores

text \<open>The two labels, as UTF-16 code units: U+838A and U+9592.\<close>

definition zhuang :: "nat list" where
  "zhuang = [33674]"

definition xian :: "nat list" where
  "xian = [38290]"

text \<open>
  \<open>_evaluatePattern(beadRoad)\<close>. On a value that is not an array, \<open>slice\<close> is missing,
  or, on a string, \<open>filter\<close> is: the call throws.
\<close>

definition evaluatePattern :: "jsval \<Rightarrow> error + jsnum" where
  "evaluatePattern beadRoad =
     (if \<not> truthy beadRoad \<or> getProp beadRoad ''length'' = JNum (Fin 0) then Inr (lit 0)
      else case beadRoad of
        JArr xs \<Rightarrow>
          (let last' = last xs;
               recent = drop (length xs - 10) xs;
               bankerCount = Fin (of_nat (length (filter (\<lambda>r. r = JStr ''B'') recent)));
               playerCount = Fin (of_nat (length (filter (\<lambda>r. r = JStr ''P'') recent)));
               bias = (if jgt (jadd bankerCount playerCount) (lit 0)
                       then jdiv (jsub bankerCount playerCount) (jadd bankerCount playerCount)
                       else lit 0);
               lastBonus = (if last' = JStr ''B'' then lit 0.1
                            else if last' = JStr ''P'' then lit (- 0.1) else lit 0);
               score = jadd bias lastBonus
           in Inr score)
      | _ \<Rightarrow> Inl TypeError)"

text \<open>The loop of \<open>_baccaratPointSum(cards)\<close>, with \<open>sum\<close> as accumulator.\<close>

fun pointSumLoop :: "runtime \<Rightarrow> jsnum \<Rightarrow> jsval list \<Rightarrow> error + jsnum" where
  "pointSumLoop rt sumV [] = Inr sumV"
| "pointSumLoop rt sumV (c # cards) =
     (case toNumber rt c of
        Inl e \<Rightarrow> Inl e
      | Inr v \<Rightarrow>
          if isNaN v then pointSumLoop rt sumV cards
          else let point = (if jge v (lit 10) then lit 0 else v)
               in pointSumLoop rt (jadd sumV point) cards)"

definition baccaratPointSum :: "runtime \<Rightarrow> jsval list \<Rightarrow> error + jsnum" where
  "baccaratPointSum rt cards =
     (case pointSumLoop rt (lit 0) cards of
        Inl e \<Rightarrow> Inl e
      | Inr sumV \<Rightarrow> Inr (jrem sumV (lit 10)))"

text \<open>\<open>_evaluateCardPoints(bankerCards, playerCards)\<close>\<close>

definition evaluateCardPoints :: "runtime \<Rightarrow> jsval \<Rightarrow> jsval \<Rightarrow> error + jsnum" where
  "evaluateCardPoints rt bankerCards playerCards =
     (if \<not> isArray bankerCards \<or> \<not> isArray playerCards then Inr (lit 0)
      else case baccaratPointSum rt (elements bankerCards) of
             Inl e \<Rightarrow> Inl e
           | Inr bankerTotal \<Rightarrow>
               (case baccaratPointSum rt (elements playerCards) of
                  Inl e \<Rightarrow> Inl e
                | Inr playerTotal \<Rightarrow>
                    (let diff = jsub bankerTotal playerTotal
                     in if jgt diff (lit 0) then Inr (lit (- 0.3))
                        else if jlt diff (lit 0) then Inr (lit 0.3)
                        else Inr (lit 0))))"

definition toScore :: "jsval \<Rightarrow> jsnum" where
  "toScore color =
     (if color = JStr ''R'' then lit 0.5 else if color = JStr ''B'' then lit (- 0.5) else lit 0)"

text \<open>\<open>_evaluateDownRoad(downRoad)\<close>\<close>

definition evaluateDownRoad :: "runtime \<Rightarrow> jsval \<Rightarrow> error + jsnum" where
  "evaluateDownRoad rt downRoad' =
     (let bigEye = destructure downRoad' ''bigEye'' (JArr []);
          smallRoad = destructure downRoad' ''smallRoad'' (JArr []);
          cockroach = destructure downRoad' ''cockroach'' (JArr [])
      in case lastEntry rt bigEye of
           Inl e \<Rightarrow> Inl e
         | Inr lastBig \<Rightarrow>
             (case lastEntry rt smallRoad of
                Inl e \<Rightarrow> Inl e
              | Inr lastSmall \<Rightarrow>
                  (case lastEntry rt cockroach of
                     Inl e \<Rightarrow> Inl e
                   | Inr lastCockroach \<Rightarrow>
                       (let score0 = lit 0;
                            score1 = jadd score0 (toScore lastBig);
                            score2 = jadd score1 (toScore lastSmall);
                            score3 = jadd score2 (toScore lastCockroach)
                        in Inr (jdiv score3 (lit 1.5))))))"

text \<open>\<open>_scoreToDecision(totalScore)\<close>\<close>

definition scoreToDecision :: "jsnum \<Rightarrow> decision" where
  "scoreToDecision totalScore' =
     (if jgt totalScore' (lit 0.05) then \<lparr>side = ''BANKER'', sideText = zhuang\<rparr>
      else if jlt totalScore' (lit (- 0.05)) then \<lparr>side = ''PLAYER'', sideText = xian\<rparr>
      else \<lparr>side = ''PLAYER'', sideText = xian\<rparr>)"

text \<open>
  \<open>predictNext(input)\<close>, called on the engine \<open>this\<close>: the result, or the error thrown,
  and the engine after the call.
\<close>

definition predictNext :: "runtime \<Rightarrow> engine \<Rightarrow> jsval \<Rightarrow> (error + prediction) \<times> engine" where
  "predictNext rt this input =
     (let beadRoad = destructure input ''beadRoad'' (JArr []);
          bankerCards = destructure input ''bankerCards'' (JArr []);
          playerCards = destructure input ''playerCards'' (JArr []);
          downRoad' = destructure input ''downRoad'' (JObj [])
      in case evaluatePattern beadRoad of
           Inl e \<Rightarrow> (Inl e, this)
         | Inr patternScore' \<Rightarrow>
             (case evaluateCardPoints rt bankerCards playerCards of
                Inl e \<Rightarrow> (Inl e, this)
              | Inr cardScore' \<Rightarrow>
                  (case evaluateDownRoad rt downRoad' of
                     Inl e \<Rightarrow> (Inl e, this)
                   | Inr downRoadScore' \<Rightarrow>
                       (let totalScore' =
                              jadd (jadd (jmul patternScore' (pattern (weights this)))
                                         (jmul cardScore' (cardPoints (weights this))))
                                   (jmul downRoadScore' (downRoad (weights this)));
                            result = scoreToDecision totalScore';
                            confidence' = Math_min (lit 1) (Math_abs totalScore')
                        in (Inr \<lparr>side = side result, sideText = sideText result,
                                 confidence = confidence',
                                 raw = \<lparr>patternScore = patternScore', cardScore = cardScore',
                                        downRoadScore = downRoadScore',
                                        totalScore = totalScore'\<rparr>\<rparr>,
                            this)))))"

section \<open>The symbols and formulas of the specification\<close>

text \<open>
  The specification names the outcomes BANKER, PLAYER and TIE and the colours RED and
  BLUE. The source encodes them as the strings \<open>B\<close>, \<open>P\<close>, \<open>T\<close> (its demo input and
  \<open>parseBeadRoad\<close>) and \<open>R\<close>, \<open>B\<close> (its demo input and \<open>toScore\<close>); BANKER and BLUE are
  the same string, read in different fields.
\<close>

definition BANKER :: jsval where
  "BANKER = JStr ''B''"

definition PLAYER :: jsval where
  "PLAYER = JStr ''P''"

definition TIE :: jsval where
  "TIE = JStr ''T''"

definition RED :: jsval where
  "RED = JStr ''R''"

definition BLUE :: jsval where
  "BLUE = JStr ''B''"

text \<open>The pattern sub-score in the words of the specification.\<close>

definition recentWindow :: "jsval list \<Rightarrow> jsval list" where
  "recentWindow xs = rev (take 10 (rev xs))"

definition spec_bias :: "jsval list \<Rightarrow> jsnum" where
  "spec_bias w =
     (let bankerCount = count_list w BANKER; playerCount = count_list w PLAYER
      in if 0 < bankerCount + playerCount
         then Fin (rnd ((of_nat bankerCount - of_nat playerCount)
                        / (of_nat bankerCount + of_nat playerCount)))
         else Fin 0)"

definition spec_lastBonus :: "jsval \<Rightarrow> jsnum" where
  "spec_lastBonus e = (if e = BANKER then lit 0.1 else if e = PLAYER then lit (- 0.1) else Fin 0)"

definition spec_patternScore :: "jsval list \<Rightarrow> jsnum" where
  "spec_patternScore xs =
     (if xs = [] then Fin 0 else jadd (spec_bias (recentWindow xs)) (spec_lastBonus (last xs)))"

text \<open>The baccarat point sum of the specification, on card ranks that are naturals.\<close>

definition cardPoint :: "nat \<Rightarrow> nat" where
  "cardPoint v = (if 10 \<le> v then 0 else v)"

definition spec_pointSum :: "nat list \<Rightarrow> nat" where
  "spec_pointSum vs = sum_list (map cardPoint vs) mod 10"

definition rank :: "nat \<Rightarrow> jsval" where
  "rank v = JNum (Fin (of_nat v))"

text \<open>The contribution of the most recent entry of a down-road sequence.\<close>

definition spec_contribution :: "jsval list \<Rightarrow> rat" where
  "spec_contribution xs =
     (if xs = [] then 0 else if last xs = RED then 1/2 else if last xs = BLUE then - 1/2 else 0)"

definition downRoadOf :: "jsval list \<Rightarrow> jsval list \<Rightarrow> jsval list \<Rightarrow> jsval" where
  "downRoadOf bigEye smallRoad cockroach =
     JObj [(''bigEye'', JArr bigEye), (''smallRoad'', JArr smallRoad),
           (''cockroach'', JArr cockroach)]"

section \<open>Input shapes\<close>

text \<open>
  The values \<open>Number(c)\<close> converts without throwing: every primitive value, and an array
  or an object on which the conversion of the runtime returns.
\<close>

fun converts :: "runtime \<Rightarrow> jsval \<Rightarrow> bool" where
  "converts rt (JArr xs) = (\<not> isl (ObjectToNumber rt (JArr xs)))"
| "converts rt (JObj kvs) = (\<not> isl (ObjectToNumber rt (JObj kvs)))"
| "converts rt v = True"

text \<open>
  The values \<open>v\<close> on which \<open>v[v.length - 1]\<close> can be read: every value but \<open>undefined\<close> and
  \<open>null\<close>, an object only when its \<open>length\<close> converts to a number.
\<close>

fun readable :: "runtime \<Rightarrow> jsval \<Rightarrow> bool" where
  "readable rt JUndefined = False"
| "readable rt JNull = False"
| "readable rt (JObj kvs) = converts rt (getProp (JObj kvs) ''length'')"
| "readable rt v = True"

text \<open>
  The inputs on which \<open>predictNext\<close> returns: \<open>beadRoad\<close> is falsy, or has the length 0,
  or is an array; \<open>bankerCards\<close> or \<open>playerCards\<close> is not an array, or every entry of both
  converts to a number; each of the three down-road sequences is readable. An absent
  field has its default.
\<close>

definition accepted :: "runtime \<Rightarrow> jsval \<Rightarrow> bool" where
  "accepted rt input =
     (let beadRoad = destructure input ''beadRoad'' (JArr []);
          bankerCards = destructure input ''bankerCards'' (JArr []);
          playerCards = destructure input ''playerCards'' (JArr []);
          downRoad' = destructure input ''downRoad'' (JObj [])
      in (\<not> truthy beadRoad \<or> getProp beadRoad ''length'' = JNum (Fin 0) \<or> isArray beadRoad)
         \<and> (\<not> isArray bankerCards \<or> \<not> isArray playerCards
            \<or> list_all (converts rt) (elements bankerCards)
              \<and> list_all (converts rt) (elements playerCards))
         \<and> readable rt (destructure downRoad' ''bigEye'' (JArr []))
         \<and> readable rt (destructure downRoad' ''smallRoad'' (JArr []))
         \<and> readable rt (destructure downRoad' ''cockroach'' (JArr [])))"

text \<open>
  A runtime for running the program on concrete inputs, chosen so that no string or
  object is converted to a number and no number to a key: the three functions are never
  called there, and their values do not matter.
\<close>

definition noCoercion :: runtime where
  "noCoercion =
     \<lparr>StringToNumber = (\<lambda>s. NaN), ObjectToNumber = (\<lambda>v. Inr NaN), NumberToString = (\<lambda>n. [])\<rparr>"

text \<open>The input of the source's demo run.\<close>

definition demoInput :: jsval where
  "demoInput =
     JObj [(''beadRoad'', JArr [BANKER, PLAYER, BANKER, BANKER, PLAYER,
                                 BANKER, BANKER, PLAYER, BANKER, BANKER]),
           (''bankerCards'', JArr [rank 4, rank 6]),
           (''playerCards'', JArr [rank 9, rank 1]),
           (''downRoad'', downRoadOf [RED, RED, RED, RED] [RED, RED, BLUE] [RED, RED, RED])]"

section \<open>Rounding to the nearest double\<close>

lemma p2_pos: "0 < (2::rat) powi k"
  by simp

lemma p2_add: "(2::rat) powi (a + b) = 2 powi a * 2 powi b"
  by (simp add: power_int_add)

lemma p2_diff: "(2::rat) powi (a - b) = 2 powi a / 2 powi b"
  by (simp add: power_int_diff)

lemma p2_mono: "a \<le> b \<Longrightarrow> (2::rat) powi a \<le> 2 powi b"
  by (simp add: power_int_increasing)

lemma p2_scale: "of_int (2 ^ n) * (2::rat) powi k = 2 powi (k + int n)"
  by (simp add: p2_add)

lemma p2_nat: "0 \<le> k \<Longrightarrow> (2::rat) powi k = of_int (2 ^ nat k)"
  by (simp add: power_int_def)

lemma bitlen_p2_bounds:
  assumes "0 < p"
  shows "(2::rat) powi (bitlen p - 1) \<le> of_int p" and "of_int p < (2::rat) powi (bitlen p)"
proof -
  have b1: "1 \<le> bitlen p" using assms by (auto simp: bitlen_alt_def)
  have "2 ^ nat (bitlen p - 1) \<le> p" and "p < 2 ^ nat (bitlen p)"
    using bitlen_bounds[OF assms] by auto
  then have "(of_int (2 ^ nat (bitlen p - 1)) :: rat) \<le> of_int p"
    and "(of_int p :: rat) < of_int (2 ^ nat (bitlen p))"
    by (simp_all only: of_int_le_iff of_int_less_iff)
  then show "(2::rat) powi (bitlen p - 1) \<le> of_int p" and "of_int p < (2::rat) powi (bitlen p)"
    using b1 by (simp_all add: p2_nat)
qed

lemma binade_bounds:
  assumes "x \<noteq> 0"
  shows "2 powi binade x \<le> \<bar>x\<bar>" and "\<bar>x\<bar> < 2 powi (binade x + 1)"
proof -
  obtain p q where pq: "quotient_of \<bar>x\<bar> = (p, q)" by (cases "quotient_of \<bar>x\<bar>")
  have q: "0 < q" using quotient_of_denom_pos[OF pq] .
  have x: "\<bar>x\<bar> = of_int p / of_int q" using quotient_of_div[OF pq] .
  have p: "0 < p"
  proof (rule ccontr)
    assume "\<not> 0 < p"
    then have "(of_int p :: rat) / of_int q \<le> 0" using q by (simp add: divide_le_0_iff)
    with x assms show False by simp
  qed
  define d where "d = bitlen p - bitlen q"
  note bp = bitlen_p2_bounds[OF p] and bq = bitlen_p2_bounds[OF q]
  have qpos: "(0::rat) < of_int q" using q by simp
  have ppos: "(0::rat) < of_int p" using p by simp
  have "of_int p * 2 powi (bitlen q - 1) < (2::rat) powi (bitlen p) * of_int q"
    using bp(2) bq(1) ppos qpos by (intro mult_less_le_imp_less) simp_all
  then have "of_int p / of_int q < (2::rat) powi (bitlen p) / 2 powi (bitlen q - 1)"
    using qpos by (simp add: field_simps)
  also have "\<dots> = 2 powi (d + 1)"
    unfolding d_def by (simp add: p2_diff[symmetric] algebra_simps)
  finally have upper: "\<bar>x\<bar> < 2 powi (d + 1)" using x by simp
  have "(2::rat) powi (bitlen p - 1) * of_int q < of_int p * 2 powi (bitlen q)"
    using bp(1) bq(2) ppos qpos by (intro mult_le_less_imp_less) simp_all
  then have "(2::rat) powi (bitlen p - 1) / 2 powi (bitlen q) < of_int p / of_int q"
    using qpos by (simp add: field_simps)
  moreover have "(2::rat) powi (bitlen p - 1) / 2 powi (bitlen q) = 2 powi (d - 1)"
    unfolding d_def by (simp add: p2_diff[symmetric] algebra_simps)
  ultimately have lower: "2 powi (d - 1) < \<bar>x\<bar>" using x by simp
  have b: "binade x = (if 2 powi d \<le> \<bar>x\<bar> then d else d - 1)"
    unfolding binade_def d_def by (simp add: pq)
  show "2 powi binade x \<le> \<bar>x\<bar>" using lower by (simp add: b)
  show "\<bar>x\<bar> < 2 powi (binade x + 1)" using upper by (simp add: b)
qed

lemma binade_unique:
  assumes "2 powi e \<le> \<bar>x\<bar>" and "\<bar>x\<bar> < 2 powi (e + 1)"
  shows "binade x = e"
proof -
  have nz: "x \<noteq> 0"
  proof
    assume "x = 0"
    with assms(1) have "(2::rat) powi e \<le> 0" by simp
    moreover have "0 < (2::rat) powi e" by simp
    ultimately show False by linarith
  qed
  note b = binade_bounds[OF nz]
  show ?thesis
  proof (rule ccontr)
    assume ne: "binade x \<noteq> e"
    show False
    proof (cases "binade x < e")
      case True
      then have "(2::rat) powi (binade x + 1) \<le> 2 powi e" by (intro p2_mono) simp
      with b(2) assms(1) show False by linarith
    next
      case False
      with ne have "e + 1 \<le> binade x" by simp
      then have "(2::rat) powi (e + 1) \<le> 2 powi binade x" by (rule p2_mono)
      with b(1) assms(2) show False by linarith
    qed
  qed
qed

lemma binade_mono:
  assumes "x \<noteq> 0" and "\<bar>x\<bar> \<le> \<bar>y\<bar>"
  shows "binade x \<le> binade y"
proof (rule ccontr)
  assume "\<not> binade x \<le> binade y"
  then have "binade y + 1 \<le> binade x" by simp
  then have le: "(2::rat) powi (binade y + 1) \<le> 2 powi binade x" by (rule p2_mono)
  have ny: "y \<noteq> 0" using assms by auto
  from binade_bounds(1)[OF assms(1)] binade_bounds(2)[OF ny] le assms(2)
  show False by linarith
qed

lemma binade_minus [simp]: "binade (- x) = binade x"
  by (simp add: binade_def)

lemma round_even_of_int [simp]: "round_even (of_int n) = n"
  by (simp add: round_even_def)

lemma round_even_floor: "\<lfloor>y\<rfloor> \<le> round_even y" and round_even_ceil: "round_even y \<le> \<lfloor>y\<rfloor> + 1"
  by (simp_all add: round_even_def Let_def)

lemma round_even_mono:
  assumes "a \<le> b"
  shows "round_even a \<le> round_even b"
proof (cases "\<lfloor>a\<rfloor> = \<lfloor>b\<rfloor>")
  case True
  then show ?thesis using assms by (auto simp: round_even_def Let_def)
next
  case False
  then have "\<lfloor>a\<rfloor> + 1 \<le> \<lfloor>b\<rfloor>" using floor_mono[OF assms] by simp
  with round_even_ceil[of a] round_even_floor[of b] show ?thesis by linarith
qed

lemma round_even_minus: "round_even (- y) = - round_even y"
proof (cases "y = of_int \<lfloor>y\<rfloor>")
  case True
  then obtain n where "y = of_int n" ..
  then have "- y = of_int (- n)" by simp
  then show ?thesis using \<open>y = of_int n\<close> by (simp only: round_even_of_int)
next
  case False
  then have fl: "\<lfloor>- y\<rfloor> = - \<lfloor>y\<rfloor> - 1"
    by (simp add: floor_minus ceiling_altdef)
  show ?thesis
    unfolding round_even_def Let_def fl by (auto simp: algebra_simps)
qed

lemma round_even_ge: "of_int n \<le> y \<Longrightarrow> n \<le> round_even y"
  using round_even_mono[of "of_int n" y] by simp

lemma round_even_le: "y \<le> of_int n \<Longrightarrow> round_even y \<le> n"
  using round_even_mono[of y "of_int n"] by simp


lemma quantum_pos: "0 < quantum x"
  by (simp add: quantum_def)

lemma quantum_minus [simp]: "quantum (- x) = quantum x"
  by (simp add: quantum_def)

lemma rnd_0 [simp]: "rnd 0 = 0"
  by (simp add: rnd_def)

lemma rnd_minus: "rnd (- x) = - rnd x"
  by (simp add: rnd_def round_even_minus)

lemma rnd_nonneg:
  assumes "0 \<le> x"
  shows "0 \<le> rnd x"
proof (cases "x = 0")
  case True
  then show ?thesis by simp
next
  case False
  have "0 \<le> x / quantum x" using assms quantum_pos[of x] by simp
  then have "0 \<le> round_even (x / quantum x)" using round_even_ge[of 0] by simp
  then show ?thesis using False quantum_pos[of x] by (simp add: rnd_def)
qed

lemma rnd_mono_pos:
  assumes "0 < x" and "x \<le> y"
  shows "rnd x \<le> rnd y"
proof -
  define ex where "ex = max (binade x) (- 1022)"
  define ey where "ey = max (binade y) (- 1022)"
  have nz: "x \<noteq> 0" "y \<noteq> 0" using assms by auto
  have qx: "quantum x = 2 powi (ex - 52)" and qy: "quantum y = 2 powi (ey - 52)"
    by (simp_all add: quantum_def ex_def ey_def)
  have "binade x \<le> binade y" using assms by (intro binade_mono) auto
  then have le: "ex \<le> ey" by (simp add: ex_def ey_def)
  have rx: "rnd x = of_int (round_even (x / quantum x)) * quantum x"
    and ry: "rnd y = of_int (round_even (y / quantum y)) * quantum y"
    using nz by (simp_all add: rnd_def)
  show ?thesis
  proof (cases "ex = ey")
    case True
    then have q: "quantum y = quantum x" by (simp add: qx qy)
    have "x / quantum x \<le> y / quantum x"
      using assms(2) quantum_pos[of x] by (simp add: divide_right_mono)
    then have "round_even (x / quantum x) \<le> round_even (y / quantum x)"
      by (rule round_even_mono)
    then have "(of_int (round_even (x / quantum x)) :: rat) \<le> of_int (round_even (y / quantum x))"
      by simp
    then show ?thesis
      unfolding rx ry q using quantum_pos[of x] by (simp add: mult_right_mono)
  next
    case False
    with le have lt: "ex < ey" by simp
    then have bey: "binade y = ey" by (auto simp: ey_def ex_def max_def split: if_splits)
    have "x < 2 powi (binade x + 1)" using binade_bounds(2)[OF nz(1)] assms(1) by simp
    also have "\<dots> \<le> 2 powi (ex + 1)" by (intro p2_mono) (simp add: ex_def)
    finally have "x / quantum x < 2 powi (ex + 1) / 2 powi (ex - 52)"
      unfolding qx by (simp add: divide_strict_right_mono p2_pos)
    also have "2 powi (ex + 1) / 2 powi (ex - 52) = (2::rat) powi 53"
      by (simp add: p2_diff[symmetric])
    finally have "x / quantum x \<le> of_int (2 ^ 53)" by simp
    then have "round_even (x / quantum x) \<le> 2 ^ 53" by (rule round_even_le)
    then have "(of_int (round_even (x / quantum x)) :: rat) \<le> of_int (2 ^ 53)"
      by (simp only: of_int_le_iff)
    then have "rnd x \<le> of_int (2 ^ 53) * 2 powi (ex - 52)"
      unfolding rx qx by (intro mult_right_mono) (simp_all add: less_imp_le[OF p2_pos])
    also have "\<dots> = 2 powi (ex + 1)" using p2_scale[of 53 "ex - 52"] by (simp add: add.commute)
    also have "\<dots> \<le> 2 powi ey" using lt by (intro p2_mono) simp
    finally have upper: "rnd x \<le> 2 powi ey" .
    have "2 powi ey \<le> y" using binade_bounds(1)[OF nz(2)] assms by (simp add: bey)
    then have "2 powi ey / 2 powi (ey - 52) \<le> y / quantum y"
      unfolding qy by (simp add: divide_right_mono less_imp_le[OF p2_pos])
    moreover have "2 powi ey / 2 powi (ey - 52) = (2::rat) powi 52"
      by (simp add: p2_diff[symmetric])
    ultimately have "of_int (2 ^ 52) \<le> y / quantum y" by simp
    then have "2 ^ 52 \<le> round_even (y / quantum y)" by (rule round_even_ge)
    then have "(of_int (2 ^ 52) :: rat) \<le> of_int (round_even (y / quantum y))"
      by (simp only: of_int_le_iff)
    then have "of_int (2 ^ 52) * 2 powi (ey - 52) \<le> rnd y"
      unfolding ry qy by (intro mult_right_mono) (simp_all add: less_imp_le[OF p2_pos])
    moreover have "of_int (2 ^ 52) * 2 powi (ey - 52) = (2::rat) powi ey"
      using p2_scale[of 52 "ey - 52"] by (simp add: add.commute)
    ultimately have "2 powi ey \<le> rnd y" by simp
    with upper show ?thesis by linarith
  qed
qed

lemma rnd_mono:
  assumes "x \<le> y"
  shows "rnd x \<le> rnd y"
proof -
  consider "0 < x" | "y < 0" | "x \<le> 0" "0 \<le> y" by linarith
  then show ?thesis
  proof cases
    case 1
    then show ?thesis using assms by (rule rnd_mono_pos)
  next
    case 2
    then have "rnd (- y) \<le> rnd (- x)" using assms by (intro rnd_mono_pos) simp_all
    then show ?thesis by (simp add: rnd_minus)
  next
    case 3
    have "0 \<le> rnd (- x)" using 3(1) by (intro rnd_nonneg) simp
    then have "rnd x \<le> 0" by (simp add: rnd_minus)
    moreover have "0 \<le> rnd y" using 3(2) by (rule rnd_nonneg)
    ultimately show ?thesis by linarith
  qed
qed

lemma rnd_abs_le:
  assumes "\<bar>x\<bar> \<le> b"
  shows "\<bar>rnd x\<bar> \<le> rnd b"
proof -
  have "rnd x \<le> rnd b" using assms by (intro rnd_mono) simp
  moreover have "rnd (- x) \<le> rnd b" using assms by (intro rnd_mono) simp
  ultimately show ?thesis by (simp add: rnd_minus abs_le_iff)
qed

lemma rnd_repr:
  assumes m: "\<bar>m\<bar> < 2 ^ 53" and k: "- 1074 \<le> k"
  shows "rnd (of_int m * 2 powi k) = of_int m * 2 powi k"
proof (cases "m = 0")
  case True
  then show ?thesis by simp
next
  case False
  define x :: rat where "x = of_int m * 2 powi k"
  define e where "e = max (binade x) (- 1022)"
  have nz: "x \<noteq> 0" using False by (simp add: x_def)
  have "\<bar>x\<bar> = of_int \<bar>m\<bar> * 2 powi k" by (simp add: x_def abs_mult)
  also have "\<dots> < of_int (2 ^ 53) * 2 powi k"
    using m by (intro mult_strict_right_mono) (simp_all only: of_int_less_iff p2_pos)
  also have "\<dots> = 2 powi (k + 53)" using p2_scale[of 53 k] by (simp add: add.commute)
  finally have ub: "\<bar>x\<bar> < 2 powi (k + 53)" .
  have "binade x < k + 53"
  proof (rule ccontr)
    assume "\<not> binade x < k + 53"
    then have "(2::rat) powi (k + 53) \<le> 2 powi binade x" by (intro p2_mono) simp
    with binade_bounds(1)[OF nz] ub show False by linarith
  qed
  then have ek: "e - 52 \<le> k" using k by (simp add: e_def)
  define j where "j = nat (k - (e - 52))"
  have kj: "k = int j + (e - 52)" using ek by (simp add: j_def)
  have q: "quantum x = 2 powi (e - 52)" by (simp add: quantum_def e_def)
  have "(2::rat) powi k = 2 ^ j * 2 powi (e - 52)"
    by (subst kj, subst p2_add) simp
  then have "(of_int m :: rat) * 2 powi k = of_int (m * 2 ^ j) * 2 powi (e - 52)" by simp
  then have xq: "x = of_int (m * 2 ^ j) * quantum x" unfolding q by (simp only: x_def)
  have qnz: "quantum x \<noteq> 0" using quantum_pos[of x] by simp
  have "x / quantum x = of_int (m * 2 ^ j)"
    unfolding nonzero_divide_eq_eq[OF qnz] by (rule xq)
  then have "round_even (x / quantum x) = m * 2 ^ j" by (simp only: round_even_of_int)
  then have "rnd x = of_int (m * 2 ^ j) * quantum x" using nz by (simp add: rnd_def)
  with xq have "rnd x = x" by (simp only:)
  then show ?thesis by (simp only: x_def)
qed

lemma rnd_of_int:
  assumes "\<bar>n\<bar> < 2 ^ 53"
  shows "rnd (of_int n) = of_int n"
  using rnd_repr[OF assms, of 0] by simp

lemma rnd_grid: "\<exists>n. rnd x = of_int n * 2 powi (- 1074)"
proof (cases "x = 0")
  case True
  then show ?thesis by (intro exI[of _ 0]) simp
next
  case False
  define e where "e = max (binade x) (- 1022)"
  define j where "j = nat (e + 1022)"
  have "- 1022 \<le> e" by (simp add: e_def)
  then have ej: "e - 52 = int j + (- 1074)" by (simp add: j_def)
  have "quantum x = 2 powi (e - 52)" by (simp add: quantum_def e_def)
  also have "\<dots> = 2 ^ j * 2 powi (- 1074)" by (subst ej, subst p2_add) simp
  finally have "rnd x = of_int (round_even (x / quantum x) * 2 ^ j) * 2 powi (- 1074)"
    using False by (simp add: rnd_def)
  then show ?thesis ..
qed

lemma rnd_diff_pos:
  assumes "rnd b < rnd a"
  shows "0 < rnd (rnd a - rnd b)"
proof -
  obtain m where m: "rnd a = of_int m * 2 powi (- 1074)" using rnd_grid by blast
  obtain n where n: "rnd b = of_int n * 2 powi (- 1074)" using rnd_grid by blast
  have "of_int n * (2::rat) powi (- 1074) < of_int m * 2 powi (- 1074)" using assms m n by simp
  then have "(of_int n :: rat) < of_int m" using p2_pos[of "- 1074"] by (simp only: mult_less_cancel_right_pos)
  then have "1 \<le> m - n" by simp
  then have "(1::rat) \<le> of_int (m - n)" by (simp only: of_int_1_le_iff)
  then have "1 * 2 powi (- 1074) \<le> of_int (m - n) * (2::rat) powi (- 1074)"
    by (intro mult_right_mono) (simp_all add: less_imp_le[OF p2_pos])
  then have "2 powi (- 1074) \<le> rnd a - rnd b" by (simp add: m n algebra_simps)
  then have "rnd (2 powi (- 1074)) \<le> rnd (rnd a - rnd b)" by (rule rnd_mono)
  moreover have "rnd (2 powi (- 1074)) = 2 powi (- 1074)" using rnd_repr[of 1 "- 1074"] by simp
  ultimately show ?thesis using p2_pos[of "- 1074"] by linarith
qed

section \<open>Facts about the number operations\<close>

lemma toDouble_Fin:
  assumes "\<bar>rnd r\<bar> < 2 ^ 1024"
  shows "toDouble r = Fin (rnd r)"
proof (cases "rnd r = 0")
  case True
  then show ?thesis by (simp add: toDouble_def)
next
  case False
  have "binade (rnd r) < 1024"
  proof (rule ccontr)
    assume "\<not> binade (rnd r) < 1024"
    then have "(2::rat) powi 1024 \<le> 2 powi binade (rnd r)" by (intro p2_mono) simp
    with binade_bounds(1)[OF False] assms show False by simp
  qed
  then show ?thesis by (simp add: toDouble_def)
qed

lemma rnd_1: "rnd 1 = 1"
  using rnd_of_int[of 1] by simp

lemma toDouble_bounded:
  assumes "\<bar>r\<bar> \<le> b" and "rnd b < 2 ^ 1024"
  shows "toDouble r = Fin (rnd r)"
  using rnd_abs_le[OF assms(1)] assms(2) by (intro toDouble_Fin) linarith

lemma toDouble_unit:
  assumes "\<bar>r\<bar> \<le> 1"
  shows "toDouble r = Fin (rnd r)" and "\<bar>rnd r\<bar> \<le> 1"
  using rnd_abs_le[OF assms] toDouble_bounded[OF assms] by (simp_all add: rnd_1)

lemma toDouble_minus: "toDouble (- r) = jneg (toDouble r)"
  by (auto simp: toDouble_def Let_def rnd_minus)

lemma toDouble_0 [simp]: "toDouble 0 = Fin 0"
  by (simp add: toDouble_def)

lemma toDouble_of_int:
  assumes "\<bar>n\<bar> < 2 ^ 53"
  shows "toDouble (of_int n) = Fin (of_int n)"
proof -
  have r: "rnd (of_int n) = of_int n" using assms by (rule rnd_of_int)
  have "\<bar>of_int n :: rat\<bar> < of_int (2 ^ 53)"
    using assms by (simp only: of_int_abs[symmetric] of_int_less_iff)
  then have "\<bar>of_int n :: rat\<bar> < 2 ^ 1024" by simp
  then show ?thesis by (intro toDouble_Fin[of "of_int n", unfolded r])
qed

lemma toDouble_of_nat:
  assumes "n < 2 ^ 53"
  shows "toDouble (of_nat n) = Fin (of_nat n)"
  using toDouble_of_int[of "int n"] assms by simp

lemma toDouble_half:
  assumes "\<bar>n\<bar> < 2 ^ 53"
  shows "toDouble (of_int n / 2) = Fin (of_int n / 2)"
proof -
  have e: "(of_int n :: rat) / 2 = of_int n * 2 powi (- 1)" by (simp add: power_int_minus)
  have r: "rnd (of_int n / 2) = of_int n / 2"
    unfolding e using assms by (intro rnd_repr) simp_all
  have "\<bar>of_int n :: rat\<bar> < of_int (2 ^ 53)"
    using assms by (simp only: of_int_abs[symmetric] of_int_less_iff)
  then have "\<bar>of_int n / 2 :: rat\<bar> < 2 ^ 1024" by simp
  then show ?thesis by (intro toDouble_Fin[of "of_int n / 2", unfolded r])
qed

text \<open>The doubles the literals of the source denote; the simplifier writes \<open>0.05\<close> as \<open>1/20\<close>.\<close>

lemma lit_vals:
  "lit 0 = Fin 0"
  "lit 1 = Fin 1"
  "lit 10 = Fin 10"
  "lit (1/2) = Fin (1/2)"
  "lit (- (1/2)) = Fin (- (1/2))"
  "lit (3/2) = Fin (3/2)"
  "lit (1/10) = Fin (3602879701896397 / 36028797018963968)"
  "lit (- (1/10)) = Fin (- (3602879701896397 / 36028797018963968))"
  "lit (3/10) = Fin (5404319552844595 / 18014398509481984)"
  "lit (- (3/10)) = Fin (- (5404319552844595 / 18014398509481984))"
  "lit (2/5) = Fin (3602879701896397 / 9007199254740992)"
  "lit (1/20) = Fin (3602879701896397 / 72057594037927936)"
  "lit (- (1/20)) = Fin (- (3602879701896397 / 72057594037927936))"
  by code_simp+

lemma jneg_lits:
  "jneg (lit 0.3) = lit (- 0.3)" "jneg (lit (- 0.3)) = lit 0.3" "jneg (lit 0) = lit 0"
  by (simp_all add: lit_vals)

lemma jgt_toDouble_0: "jgt (toDouble z) (Fin 0) = (0 < rnd z)"
  by (auto simp: jgt_def toDouble_def Let_def)

lemma jlt_toDouble_0: "jlt (toDouble z) (Fin 0) = (rnd z < 0)"
  by (auto simp: toDouble_def Let_def)

lemma rnd_diff_sign:
  "(0 < rnd (rnd a - rnd b)) = (rnd b < rnd a)"
  "(rnd (rnd a - rnd b) < 0) = (rnd a < rnd b)"
proof -
  have pos: "(0 < rnd (rnd x - rnd y)) = (rnd y < rnd x)" for x y
  proof (cases "rnd y < rnd x")
    case True
    then show ?thesis using rnd_diff_pos[of y x] by simp
  next
    case False
    then have "rnd (rnd x - rnd y) \<le> rnd 0" by (intro rnd_mono) simp
    with False show ?thesis by simp
  qed
  show "(0 < rnd (rnd a - rnd b)) = (rnd b < rnd a)" by (rule pos)
  have "rnd (rnd a - rnd b) = - rnd (rnd b - rnd a)"
    using rnd_minus[of "rnd b - rnd a"] by simp
  then show "(rnd (rnd a - rnd b) < 0) = (rnd a < rnd b)" using pos[of b a] by simp
qed

lemma jsub_swap: "jsub b a = jneg (jsub a b)"
proof (cases a; cases b)
  fix x y
  assume "a = Fin x" and "b = Fin y"
  then show ?thesis using toDouble_minus[of "x - y"] by (simp add: jsub_def)
qed (simp_all add: jsub_def)

lemma toDouble_shape: "toDouble a = Fin (rnd a) \<or> toDouble a = PosInf \<or> toDouble a = NegInf"
  by (simp add: toDouble_def Let_def)

lemma diff_sign:
  "jgt (jsub (toDouble a) (toDouble b)) (Fin 0) = jgt (toDouble a) (toDouble b)"
  "jlt (jsub (toDouble a) (toDouble b)) (Fin 0) = jlt (toDouble a) (toDouble b)"
proof -
  have "jgt (jsub x y) (Fin 0) = jgt x y \<and> jlt (jsub x y) (Fin 0) = jlt x y"
    if "x = Fin (rnd a) \<or> x = PosInf \<or> x = NegInf"
      and "y = Fin (rnd b) \<or> y = PosInf \<or> y = NegInf" for x y
    using that
    by (auto simp: jsub_def jgt_def jgt_toDouble_0[unfolded jgt_def] jlt_toDouble_0
                   rnd_diff_sign)
  from this[OF toDouble_shape toDouble_shape]
  show "jgt (jsub (toDouble a) (toDouble b)) (Fin 0) = jgt (toDouble a) (toDouble b)"
    and "jlt (jsub (toDouble a) (toDouble b)) (Fin 0) = jlt (toDouble a) (toDouble b)"
    by simp_all
qed

lemma jsub_nat:
  assumes "a < 2 ^ 53" and "b < 2 ^ 53"
  shows "jsub (Fin (of_nat a)) (Fin (of_nat b)) = Fin (of_nat a - of_nat b)"
proof -
  have "int a < 2 ^ 53" and "int b < 2 ^ 53" using assms by simp_all
  then have "\<bar>int a - int b\<bar> < 2 ^ 53" by simp
  from toDouble_of_int[OF this] show ?thesis by (simp add: jsub_def)
qed

section \<open>Facts about the card points\<close>

lemma decide_swap:
  "(if jgt (jsub y x) (lit 0) then Inr (lit (- 0.3))
    else if jlt (jsub y x) (lit 0) then Inr (lit 0.3) else Inr (lit 0))
   = map_sum id jneg
       (if jgt (jsub x y) (lit 0) then (Inr (lit (- 0.3)) :: error + jsnum)
        else if jlt (jsub x y) (lit 0) then Inr (lit 0.3) else Inr (lit 0))"
proof -
  define d where "d = jsub x y"
  have "jsub y x = jneg d" unfolding d_def by (rule jsub_swap)
  then show ?thesis
    unfolding d_def[symmetric] by (cases d) (simp_all add: lit_vals jgt_def)
qed

lemma decide_same: "\<not> jgt (jsub x x) (lit 0) \<and> \<not> jlt (jsub x x) (lit 0)"
  by (cases x) (simp_all add: jsub_def jgt_def lit_vals)

lemma jlt_NaN [simp]: "jlt v NaN = False"
  by (cases v) simp_all

lemma jgt_NaN [simp]: "jgt NaN v = False" "jgt v NaN = False"
  by (simp_all add: jgt_def)

lemma jrem_shape: "jrem s (Fin 10) = NaN \<or> (\<exists>r. jrem s (Fin 10) = toDouble r)"
  by (cases s) auto

lemma digit_shape:
  assumes "baccaratPointSum rt cs = Inr x"
  shows "x = NaN \<or> (\<exists>r. x = toDouble r)"
  using assms jrem_shape
  by (auto simp: baccaratPointSum_def lit_vals split: sum.splits)

lemma digit_compare:
  assumes "x = NaN \<or> (\<exists>r. x = toDouble r)" and "y = NaN \<or> (\<exists>r. y = toDouble r)"
  shows "jgt (jsub x y) (lit 0) = jgt x y" and "jlt (jsub x y) (lit 0) = jlt x y"
proof -
  have nan: "jsub NaN v = NaN" "jsub v NaN = NaN" for v
    by (cases v; simp add: jsub_def)+
  show "jgt (jsub x y) (lit 0) = jgt x y" and "jlt (jsub x y) (lit 0) = jlt x y"
    using assms by (auto simp: lit_vals diff_sign nan)
qed

lemma pointSumLoop_append:
  "pointSumLoop rt s (cs @ ds) =
     (case pointSumLoop rt s cs of Inl e \<Rightarrow> Inl e | Inr s' \<Rightarrow> pointSumLoop rt s' ds)"
  by (induction cs arbitrary: s) (simp_all add: Let_def split: sum.splits)

lemma pointSumLoop_skip:
  assumes "toNumber rt c = Inr NaN"
  shows "pointSumLoop rt s (cs @ c # ds) = pointSumLoop rt s (cs @ ds)"
  using assms by (simp add: pointSumLoop_append isNaN_def split: sum.splits)

lemma cardPoint_le: "cardPoint v \<le> 9"
  by (simp add: cardPoint_def)

lemma point_of_rank:
  "(if jge (Fin (of_nat v)) (lit 10) then lit 0 else Fin (of_nat v)) = Fin (of_nat (cardPoint v))"
  by (simp add: jge_def lit_vals cardPoint_def)

lemma pointSumLoop_ranks:
  assumes "s + 9 * length vs < 2 ^ 53"
  shows "pointSumLoop rt (Fin (of_nat s)) (map rank vs)
           = Inr (Fin (of_nat (s + sum_list (map cardPoint vs))))"
  using assms
proof (induction vs arbitrary: s)
  case Nil
  then show ?case by simp
next
  case (Cons v vs)
  have lt: "s + cardPoint v < 2 ^ 53" using Cons.prems cardPoint_le[of v] by simp
  have step: "toDouble (of_nat s + of_nat (cardPoint v)) = Fin (of_nat s + of_nat (cardPoint v))"
    using toDouble_of_nat[OF lt] by simp
  have "(s + cardPoint v) + 9 * length vs < 2 ^ 53"
    using Cons.prems cardPoint_le[of v] by simp
  from Cons.IH[OF this] show ?case
    by (simp add: rank_def isNaN_def point_of_rank step add.assoc)
qed

lemma jrem_nat_10: "jrem (Fin (of_nat n)) (Fin 10) = Fin (of_nat (n mod 10))"
proof -
  have "\<lfloor>(of_nat n :: rat) / of_nat 10\<rfloor> = int (n div 10)" by (rule floor_divide_of_nat_eq)
  then have t: "trunc (of_nat n / 10) = int (n div 10)" by (simp add: trunc_def)
  have "(of_nat n :: rat) = of_nat (10 * (n div 10) + n mod 10)" by simp
  also have "\<dots> = 10 * of_nat (n div 10) + of_nat (n mod 10)"
    by (simp only: of_nat_add of_nat_mult of_nat_numeral)
  finally have "(of_nat n :: rat) - 10 * of_int (int (n div 10)) = of_nat (n mod 10)" by simp
  moreover have "toDouble (of_nat (n mod 10)) = Fin (of_nat (n mod 10))"
    by (intro toDouble_of_nat) (simp add: less_trans[OF mod_less_divisor])
  ultimately show ?thesis by (simp add: t)
qed

lemma baccaratPointSum_ranks:
  assumes "length vs < 2 ^ 32"
  shows "baccaratPointSum rt (map rank vs) = Inr (Fin (of_nat (spec_pointSum vs)))"
proof -
  have "9 * length vs < 9 * 2 ^ 32" using assms by simp
  then have "0 + 9 * length vs < 2 ^ 53" by simp
  from pointSumLoop_ranks[OF this, of rt] show ?thesis
    by (simp add: baccaratPointSum_def lit_vals jrem_nat_10 spec_pointSum_def del: jrem.simps)
qed

lemma baccaratPointSum_empty: "baccaratPointSum rt [] = Inr (Fin 0)"
  by (simp add: baccaratPointSum_def lit_vals trunc_def)

section \<open>Facts about the pattern score\<close>

lemma recentWindow_drop: "recentWindow xs = drop (length xs - 10) xs"
  by (simp add: recentWindow_def rev_take)

lemma recentWindow_length: "length (recentWindow xs) \<le> 10"
  by (simp add: recentWindow_def)

lemma recentWindow_Nil: "(recentWindow xs = []) = (xs = [])"
  by (cases xs) (auto simp: recentWindow_drop)

lemma recentWindow_last: "xs \<noteq> [] \<Longrightarrow> last (recentWindow xs) = last xs"
  by (simp add: recentWindow_drop)

lemma recentWindow_idem: "recentWindow (recentWindow xs) = recentWindow xs"
  by (simp add: recentWindow_drop)

lemma length_filter_count: "length (filter (\<lambda>r. r = v) w) = count_list w v"
  by (induction w) simp_all

lemma count_two:
  assumes "a \<noteq> b"
  shows "count_list w a + count_list w b \<le> length w"
  using assms by (induction w) auto

lemma ratio_unit:
  assumes "0 < b + p"
  shows "\<bar>(of_nat b - of_nat p) / (of_nat b + of_nat p) :: rat\<bar> \<le> 1"
proof -
  have pos: "(0::rat) < of_nat b + of_nat p"
    using assms by (simp only: of_nat_add[symmetric] of_nat_0_less_iff)
  have "\<bar>(of_nat b - of_nat p :: rat)\<bar> \<le> of_nat b + of_nat p" by simp
  then show ?thesis using pos by simp
qed

lemma bias_eq:
  assumes "b + p \<le> 10"
  shows "(if jgt (jadd (Fin (of_nat b)) (Fin (of_nat p))) (lit 0)
          then jdiv (jsub (Fin (of_nat b)) (Fin (of_nat p))) (jadd (Fin (of_nat b)) (Fin (of_nat p)))
          else lit 0)
         = (if 0 < b + p
            then Fin (rnd ((of_nat b - of_nat p) / (of_nat b + of_nat p)))
            else Fin 0)"
proof -
  have small: "b + p < 2 ^ 53" "b < 2 ^ 53" "p < 2 ^ 53" using assms by simp_all
  have add: "toDouble (of_nat b + of_nat p) = Fin (of_nat b + of_nat p)"
    using toDouble_of_nat[OF small(1)] by simp
  have sub: "jsub (Fin (of_nat b)) (Fin (of_nat p)) = Fin (of_nat b - of_nat p)"
    using small(2,3) by (rule jsub_nat)
  show ?thesis
  proof (cases "0 < b + p")
    case False
    then show ?thesis by (simp add: lit_vals jgt_def)
  next
    case True
    then have pos: "(0::rat) < of_nat b + of_nat p"
      by (simp only: of_nat_add[symmetric] of_nat_0_less_iff)
    have "\<bar>(of_nat b - of_nat p) / (of_nat b + of_nat p) :: rat\<bar> \<le> 1"
      using True by (rule ratio_unit)
    from toDouble_unit(1)[OF this] True pos show ?thesis
      by (simp add: add sub lit_vals jgt_def)
  qed
qed

lemma evaluatePattern_array: "evaluatePattern (JArr xs) = Inr (spec_patternScore xs)"
proof (cases "xs = []")
  case True
  then show ?thesis by (simp add: evaluatePattern_def spec_patternScore_def lit_vals)
next
  case False
  define w where "w = recentWindow xs"
  have "count_list w (JStr ''B'') + count_list w (JStr ''P'') \<le> length w"
    by (rule count_two) simp
  then have le: "count_list w (JStr ''B'') + count_list w (JStr ''P'') \<le> 10"
    using recentWindow_length[of xs] by (simp add: w_def)
  have nz: "rat_of_nat (length xs) \<noteq> 0" using False by simp
  show ?thesis
    using False nz bias_eq[OF le]
    by (simp add: evaluatePattern_def Let_def length_filter_count recentWindow_drop[symmetric]
        w_def[symmetric] spec_patternScore_def spec_bias_def spec_lastBonus_def
        BANKER_def PLAYER_def lit_vals del: of_nat_add)
qed

section \<open>Facts about the down-road score\<close>

lemma toScore_half: "\<exists>k. toScore v = Fin (of_int k / 2) \<and> \<bar>k\<bar> \<le> 1"
proof -
  have "toScore v = Fin (of_int 1 / 2) \<or> toScore v = Fin (of_int (- 1) / 2)
        \<or> toScore v = Fin (of_int 0 / 2)"
    by (simp add: toScore_def lit_vals)
  then show ?thesis by (elim disjE) (rule exI, rule conjI, assumption, simp)+
qed

lemma jadd_half:
  assumes "\<bar>a\<bar> < 2 ^ 52" and "\<bar>b\<bar> < 2 ^ 52"
  shows "jadd (Fin (of_int a / 2)) (Fin (of_int b / 2)) = Fin (of_int (a + b) / 2)"
proof -
  have "\<bar>a + b\<bar> < 2 ^ 53" using assms by simp
  from toDouble_half[OF this] show ?thesis by (simp add: add_divide_distrib)
qed

lemma downRoad_core:
  assumes "\<bar>k1\<bar> \<le> 1" and "\<bar>k2\<bar> \<le> 1" and "\<bar>k3\<bar> \<le> 1"
  shows "jdiv (jadd (jadd (jadd (lit 0) (Fin (of_int k1 / 2))) (Fin (of_int k2 / 2)))
                    (Fin (of_int k3 / 2))) (lit 1.5)
           = Fin (rnd ((of_int k1 / 2 + of_int k2 / 2 + of_int k3 / 2) / (3/2)))"
    and "\<bar>rnd ((of_int k1 / 2 + of_int k2 / 2 + of_int k3 / 2) / (3/2))\<bar> \<le> 1"
proof -
  have s1: "jadd (lit 0) (Fin (of_int k1 / 2)) = Fin (of_int k1 / 2)"
    using jadd_half[of 0 k1] assms(1) by (simp add: lit_vals del: jadd.simps)
  have s2: "jadd (Fin (of_int k1 / 2)) (Fin (of_int k2 / 2)) = Fin (of_int (k1 + k2) / 2)"
    using assms by (intro jadd_half) simp_all
  have s3: "jadd (Fin (of_int (k1 + k2) / 2)) (Fin (of_int k3 / 2)) = Fin (of_int (k1 + k2 + k3) / 2)"
    using assms by (intro jadd_half) simp_all
  have "\<bar>k1 + k2 + k3\<bar> \<le> 3" using assms by simp
  then have "\<bar>of_int (k1 + k2 + k3) :: rat\<bar> \<le> 3"
    by (metis of_int_abs of_int_le_iff of_int_numeral)
  then have b: "\<bar>(of_int (k1 + k2 + k3) / 2) / (3/2) :: rat\<bar> \<le> 1" by simp
  have e: "(of_int k1 / 2 + of_int k2 / 2 + of_int k3 / 2 :: rat) = of_int (k1 + k2 + k3) / 2"
    by (simp add: add_divide_distrib)
  show "jdiv (jadd (jadd (jadd (lit 0) (Fin (of_int k1 / 2))) (Fin (of_int k2 / 2)))
                   (Fin (of_int k3 / 2))) (lit 1.5)
          = Fin (rnd ((of_int k1 / 2 + of_int k2 / 2 + of_int k3 / 2) / (3/2)))"
    unfolding s1 s2 s3 e using toDouble_unit(1)[OF b] by (simp add: lit_vals)
  show "\<bar>rnd ((of_int k1 / 2 + of_int k2 / 2 + of_int k3 / 2) / (3/2))\<bar> \<le> 1"
    unfolding e using toDouble_unit(2)[OF b] .
qed

lemma downRoad_scores:
  "\<exists>x. jdiv (jadd (jadd (jadd (lit 0) (toScore u)) (toScore v)) (toScore w)) (lit 1.5) = Fin x
       \<and> \<bar>x\<bar> \<le> 1"
proof -
  obtain k1 where k1: "toScore u = Fin (of_int k1 / 2)" "\<bar>k1\<bar> \<le> 1" using toScore_half by blast
  obtain k2 where k2: "toScore v = Fin (of_int k2 / 2)" "\<bar>k2\<bar> \<le> 1" using toScore_half by blast
  obtain k3 where k3: "toScore w = Fin (of_int k3 / 2)" "\<bar>k3\<bar> \<le> 1" using toScore_half by blast
  show ?thesis
    unfolding k1(1) k2(1) k3(1)
    using downRoad_core[OF k1(2) k2(2) k3(2)] by blast
qed

lemma evaluateDownRoad_bound:
  assumes "evaluateDownRoad rt v = Inr d"
  shows "\<exists>x. d = Fin x \<and> \<bar>x\<bar> \<le> 1"
proof -
  obtain a b c where
    "d = jdiv (jadd (jadd (jadd (lit 0) (toScore a)) (toScore b)) (toScore c)) (lit 1.5)"
    using assms by (auto simp: evaluateDownRoad_def Let_def split: sum.splits)
  then show ?thesis using downRoad_scores[of a b c] by auto
qed

lemma toScore_last:
  "toScore (if xs = [] then JUndefined else last xs) = Fin (spec_contribution xs)"
  by (simp add: toScore_def spec_contribution_def RED_def BLUE_def lit_vals)

lemma spec_contribution_half:
  "\<exists>k. spec_contribution xs = of_int k / 2 \<and> \<bar>k\<bar> \<le> 1"
proof -
  have "spec_contribution xs = of_int 1 / 2 \<or> spec_contribution xs = of_int (- 1) / 2
        \<or> spec_contribution xs = of_int 0 / 2"
    by (simp add: spec_contribution_def)
  then show ?thesis by (elim disjE) (rule exI, rule conjI, assumption, simp)+
qed

lemma evaluateDownRoad_arrays:
  "evaluateDownRoad rt (downRoadOf es ss cs)
     = Inr (Fin (rnd ((spec_contribution es + spec_contribution ss + spec_contribution cs) / 1.5)))"
proof -
  obtain k1 where k1: "spec_contribution es = of_int k1 / 2" "\<bar>k1\<bar> \<le> 1"
    using spec_contribution_half by blast
  obtain k2 where k2: "spec_contribution ss = of_int k2 / 2" "\<bar>k2\<bar> \<le> 1"
    using spec_contribution_half by blast
  obtain k3 where k3: "spec_contribution cs = of_int k3 / 2" "\<bar>k3\<bar> \<le> 1"
    using spec_contribution_half by blast
  have "evaluateDownRoad rt (downRoadOf es ss cs)
          = Inr (jdiv (jadd (jadd (jadd (lit 0) (Fin (spec_contribution es)))
                                  (Fin (spec_contribution ss)))
                            (Fin (spec_contribution cs))) (lit 1.5))"
    by (simp add: evaluateDownRoad_def downRoadOf_def destructure_def Let_def toScore_last
        del: jadd.simps jdiv.simps)
  also have "\<dots> = Inr (Fin (rnd ((spec_contribution es + spec_contribution ss
                                     + spec_contribution cs) / (3/2))))"
    unfolding k1(1) k2(1) k3(1) using downRoad_core(1)[OF k1(2) k2(2) k3(2)] by simp
  finally show ?thesis by simp
qed

lemma evaluateDownRoad_fields:
  assumes "destructure w ''bigEye'' (JArr []) = JArr es"
    and "destructure w ''smallRoad'' (JArr []) = JArr ss"
    and "destructure w ''cockroach'' (JArr []) = JArr cs"
  shows "evaluateDownRoad rt w
     = Inr (Fin (rnd ((spec_contribution es + spec_contribution ss + spec_contribution cs) / 1.5)))"
proof -
  obtain k1 where k1: "spec_contribution es = of_int k1 / 2" "\<bar>k1\<bar> \<le> 1"
    using spec_contribution_half by blast
  obtain k2 where k2: "spec_contribution ss = of_int k2 / 2" "\<bar>k2\<bar> \<le> 1"
    using spec_contribution_half by blast
  obtain k3 where k3: "spec_contribution cs = of_int k3 / 2" "\<bar>k3\<bar> \<le> 1"
    using spec_contribution_half by blast
  have "evaluateDownRoad rt w
          = Inr (jdiv (jadd (jadd (jadd (lit 0) (Fin (spec_contribution es)))
                                  (Fin (spec_contribution ss)))
                            (Fin (spec_contribution cs))) (lit 1.5))"
    by (simp add: evaluateDownRoad_def assms Let_def toScore_last
        del: jadd.simps jdiv.simps)
  also have "\<dots> = Inr (Fin (rnd ((spec_contribution es + spec_contribution ss
                                     + spec_contribution cs) / (3/2))))"
    unfolding k1(1) k2(1) k3(1) using downRoad_core(1)[OF k1(2) k2(2) k3(2)] by simp
  finally show ?thesis by simp
qed

lemma destructure_field:
  assumes "map_of kvs k = Some (JArr xs) \<or> map_of kvs k = None \<and> xs = []"
  shows "destructure (JObj kvs) k (JArr []) = JArr xs"
  using assms by (auto simp: destructure_def)

lemma destructure_falsy: "\<not> truthy w \<Longrightarrow> destructure w k d = d"
  by (simp add: destructure_def)

section \<open>Bounds on the scores\<close>

lemma toDouble_within:
  assumes "\<bar>r\<bar> \<le> b" and "rnd b = c" and "c < 2 ^ 1024"
  shows "\<exists>x. toDouble r = Fin x \<and> \<bar>x\<bar> \<le> c"
  using toDouble_bounded[OF assms(1)] rnd_abs_le[OF assms(1)] assms(2,3) by auto

lemma jadd_within:
  assumes "\<bar>a\<bar> \<le> A" and "\<bar>b\<bar> \<le> B" and "rnd (A + B) = C" and "C < 2 ^ 1024"
  shows "\<exists>x. jadd (Fin a) (Fin b) = Fin x \<and> \<bar>x\<bar> \<le> C"
proof -
  have "\<bar>a + b\<bar> \<le> A + B" using assms(1,2) by linarith
  from toDouble_within[OF this assms(3,4)] show ?thesis by simp
qed

lemma jmul_within:
  assumes "\<bar>a\<bar> \<le> A" and "\<bar>b\<bar> \<le> B" and "rnd (A * B) = C" and "C < 2 ^ 1024"
  shows "\<exists>x. jmul (Fin a) (Fin b) = Fin x \<and> \<bar>x\<bar> \<le> C"
proof -
  have "0 \<le> A" using assms(1) by linarith
  then have "\<bar>a\<bar> * \<bar>b\<bar> \<le> A * B" using assms(1,2) by (intro mult_mono) simp_all
  then have "\<bar>a * b\<bar> \<le> A * B" by (simp add: abs_mult)
  from toDouble_within[OF this assms(3,4)] show ?thesis by simp
qed

lemma rnd_consts:
  "rnd (1 + 3602879701896397 / 36028797018963968) = 2476979795053773 / 2251799813685248"
  "rnd (2476979795053773 / 2251799813685248 * (3602879701896397 / 9007199254740992))
     = 3963167672086037 / 9007199254740992"
  "rnd (5404319552844595 / 18014398509481984 * (5404319552844595 / 18014398509481984))
     = 3242591731706757 / 36028797018963968"
  "rnd (1 * (5404319552844595 / 18014398509481984)) = 5404319552844595 / 18014398509481984"
  "rnd (3963167672086037 / 9007199254740992 + 3242591731706757 / 36028797018963968)
     = 2386907802506363 / 4503599627370496"
  "rnd (2386907802506363 / 4503599627370496 + 5404319552844595 / 18014398509481984)
     = 467248461339689 / 562949953421312"
  by code_simp+

lemma spec_patternScore_bound:
  "\<exists>x. spec_patternScore xs = Fin x \<and> \<bar>x\<bar> \<le> 2476979795053773 / 2251799813685248"
proof (cases "xs = []")
  case True
  then show ?thesis by (simp add: spec_patternScore_def)
next
  case False
  obtain b where b: "spec_bias (recentWindow xs) = Fin b" "\<bar>b\<bar> \<le> 1"
  proof (cases "0 < count_list (recentWindow xs) BANKER + count_list (recentWindow xs) PLAYER")
    case True
    define q :: rat where
      "q = (of_nat (count_list (recentWindow xs) BANKER) - of_nat (count_list (recentWindow xs) PLAYER))
           / (of_nat (count_list (recentWindow xs) BANKER) + of_nat (count_list (recentWindow xs) PLAYER))"
    have "\<bar>q\<bar> \<le> 1" unfolding q_def using True by (rule ratio_unit)
    from toDouble_unit(2)[OF this] have "\<bar>rnd q\<bar> \<le> 1" .
    moreover have "spec_bias (recentWindow xs) = Fin (rnd q)"
      using True by (simp add: spec_bias_def q_def Let_def)
    ultimately show ?thesis using that by blast
  next
    case False
    then have "spec_bias (recentWindow xs) = Fin 0" by (simp add: spec_bias_def Let_def)
    then show ?thesis using that[of 0] by simp
  qed
  have "spec_lastBonus (last xs) = Fin (3602879701896397 / 36028797018963968)
        \<or> spec_lastBonus (last xs) = Fin (- (3602879701896397 / 36028797018963968))
        \<or> spec_lastBonus (last xs) = Fin 0"
    by (simp add: spec_lastBonus_def lit_vals)
  then consider
      (banker) "spec_lastBonus (last xs) = Fin (3602879701896397 / 36028797018963968)"
    | (player) "spec_lastBonus (last xs) = Fin (- (3602879701896397 / 36028797018963968))"
    | (neither) "spec_lastBonus (last xs) = Fin 0"
    by blast
  then obtain l where l: "spec_lastBonus (last xs) = Fin l"
    "\<bar>l\<bar> \<le> 3602879701896397 / 36028797018963968"
  proof cases
    case banker
    then show ?thesis by (rule that) simp
  next
    case player
    then show ?thesis by (rule that) simp
  next
    case neither
    then show ?thesis by (rule that) simp
  qed
  have "\<exists>x. jadd (Fin b) (Fin l) = Fin x \<and> \<bar>x\<bar> \<le> 2476979795053773 / 2251799813685248"
    by (rule jadd_within[OF b(2) l(2) rnd_consts(1)]) simp
  then show ?thesis using False by (simp add: spec_patternScore_def b(1) l(1) del: jadd.simps)
qed

lemma evaluatePattern_bound:
  assumes "evaluatePattern v = Inr p"
  shows "\<exists>x. p = Fin x \<and> \<bar>x\<bar> \<le> 2476979795053773 / 2251799813685248"
proof (cases v)
  case (JArr xs)
  then show ?thesis using assms spec_patternScore_bound[of xs] by (simp add: evaluatePattern_array)
qed (use assms in \<open>auto simp: evaluatePattern_def lit_vals split: if_splits\<close>)

lemma evaluateCardPoints_bound:
  assumes "evaluateCardPoints rt b p = Inr c"
  shows "\<exists>x. c = Fin x \<and> \<bar>x\<bar> \<le> 5404319552844595 / 18014398509481984"
  using assms
  by (auto simp: evaluateCardPoints_def Let_def lit_vals split: if_splits sum.splits)

lemma totalScore_bound:
  assumes "\<bar>p\<bar> \<le> 2476979795053773 / 2251799813685248"
    and "\<bar>c\<bar> \<le> 5404319552844595 / 18014398509481984"
    and "\<bar>d\<bar> \<le> 1"
  shows "\<exists>t. jadd (jadd (jmul (Fin p) (lit 0.4)) (jmul (Fin c) (lit 0.3)))
                    (jmul (Fin d) (lit 0.3)) = Fin t
             \<and> \<bar>t\<bar> \<le> 467248461339689 / 562949953421312"
proof -
  have "\<exists>x. jmul (Fin p) (Fin (3602879701896397 / 9007199254740992)) = Fin x
            \<and> \<bar>x\<bar> \<le> 3963167672086037 / 9007199254740992"
    by (rule jmul_within[OF assms(1) _ rnd_consts(2)]) simp_all
  then obtain t1 where t1: "jmul (Fin p) (Fin (3602879701896397 / 9007199254740992)) = Fin t1"
    "\<bar>t1\<bar> \<le> 3963167672086037 / 9007199254740992"
    by blast
  have "\<exists>x. jmul (Fin c) (Fin (5404319552844595 / 18014398509481984)) = Fin x
            \<and> \<bar>x\<bar> \<le> 3242591731706757 / 36028797018963968"
    by (rule jmul_within[OF assms(2) _ rnd_consts(3)]) simp_all
  then obtain t2 where t2: "jmul (Fin c) (Fin (5404319552844595 / 18014398509481984)) = Fin t2"
    "\<bar>t2\<bar> \<le> 3242591731706757 / 36028797018963968"
    by blast
  have "\<exists>x. jmul (Fin d) (Fin (5404319552844595 / 18014398509481984)) = Fin x
            \<and> \<bar>x\<bar> \<le> 5404319552844595 / 18014398509481984"
    by (rule jmul_within[OF assms(3) _ rnd_consts(4)]) simp_all
  then obtain t3 where t3: "jmul (Fin d) (Fin (5404319552844595 / 18014398509481984)) = Fin t3"
    "\<bar>t3\<bar> \<le> 5404319552844595 / 18014398509481984"
    by blast
  have "\<exists>x. jadd (Fin t1) (Fin t2) = Fin x \<and> \<bar>x\<bar> \<le> 2386907802506363 / 4503599627370496"
    by (rule jadd_within[OF t1(2) t2(2) rnd_consts(5)]) simp
  then obtain t12 where t12: "jadd (Fin t1) (Fin t2) = Fin t12"
    "\<bar>t12\<bar> \<le> 2386907802506363 / 4503599627370496"
    by blast
  have "\<exists>x. jadd (Fin t12) (Fin t3) = Fin x \<and> \<bar>x\<bar> \<le> 467248461339689 / 562949953421312"
    by (rule jadd_within[OF t12(2) t3(2) rnd_consts(6)]) simp
  then obtain t where t: "jadd (Fin t12) (Fin t3) = Fin t"
    "\<bar>t\<bar> \<le> 467248461339689 / 562949953421312"
    by blast
  show ?thesis
    using t by (simp add: lit_vals t1(1) t2(1) t3(1) t12(1) del: jadd.simps jmul.simps)
qed

lemma confidence_of_total:
  assumes "\<bar>t\<bar> < 1"
  shows "Math_min (lit 1) (Math_abs (Fin t)) = Fin \<bar>t\<bar>"
  using assms by (simp add: Math_min_def lit_vals)

section \<open>Facts about a call of predictNext\<close>

lemma predictNext_unfold:
  "predictNext rt this input =
     (case evaluatePattern (destructure input ''beadRoad'' (JArr [])) of
        Inl e \<Rightarrow> (Inl e, this)
      | Inr p \<Rightarrow>
          (case evaluateCardPoints rt (destructure input ''bankerCards'' (JArr []))
                  (destructure input ''playerCards'' (JArr [])) of
             Inl e \<Rightarrow> (Inl e, this)
           | Inr c \<Rightarrow>
               (case evaluateDownRoad rt (destructure input ''downRoad'' (JObj [])) of
                  Inl e \<Rightarrow> (Inl e, this)
                | Inr d \<Rightarrow>
                    (Inr \<lparr>side = side (scoreToDecision
                                 (jadd (jadd (jmul p (pattern (weights this)))
                                             (jmul c (cardPoints (weights this))))
                                       (jmul d (downRoad (weights this))))),
                          sideText = sideText (scoreToDecision
                                 (jadd (jadd (jmul p (pattern (weights this)))
                                             (jmul c (cardPoints (weights this))))
                                       (jmul d (downRoad (weights this))))),
                          confidence = Math_min (lit 1) (Math_abs
                                 (jadd (jadd (jmul p (pattern (weights this)))
                                             (jmul c (cardPoints (weights this))))
                                       (jmul d (downRoad (weights this))))),
                          raw = \<lparr>patternScore = p, cardScore = c, downRoadScore = d,
                                 totalScore =
                                   jadd (jadd (jmul p (pattern (weights this)))
                                              (jmul c (cardPoints (weights this))))
                                        (jmul d (downRoad (weights this)))\<rparr>\<rparr>,
                     this))))"
  unfolding predictNext_def Let_def ..

lemma predictNext_returns:
  assumes "predictNext rt this input = (Inr out, this')"
  obtains p c d where
    "evaluatePattern (destructure input ''beadRoad'' (JArr [])) = Inr p"
    "evaluateCardPoints rt (destructure input ''bankerCards'' (JArr []))
       (destructure input ''playerCards'' (JArr [])) = Inr c"
    "evaluateDownRoad rt (destructure input ''downRoad'' (JObj [])) = Inr d"
    "raw out = \<lparr>patternScore = p, cardScore = c, downRoadScore = d,
               totalScore = jadd (jadd (jmul p (pattern (weights this)))
                                       (jmul c (cardPoints (weights this))))
                                 (jmul d (downRoad (weights this)))\<rparr>"
    "side out = side (scoreToDecision (totalScore (raw out)))"
    "confidence out = Math_min (lit 1) (Math_abs (totalScore (raw out)))"
    "this' = this"
proof (cases "evaluatePattern (destructure input ''beadRoad'' (JArr []))")
  case (Inl e)
  with assms show ?thesis by (simp add: predictNext_unfold)
next
  case p: (Inr p)
  show ?thesis
  proof (cases "evaluateCardPoints rt (destructure input ''bankerCards'' (JArr []))
                  (destructure input ''playerCards'' (JArr []))")
    case (Inl e)
    with assms p show ?thesis by (simp add: predictNext_unfold)
  next
    case c: (Inr c)
    show ?thesis
    proof (cases "evaluateDownRoad rt (destructure input ''downRoad'' (JObj []))")
      case (Inl e)
      with assms p c show ?thesis by (simp add: predictNext_unfold)
    next
      case d: (Inr d)
      have "out = \<lparr>side = side (scoreToDecision
                                 (jadd (jadd (jmul p (pattern (weights this)))
                                             (jmul c (cardPoints (weights this))))
                                       (jmul d (downRoad (weights this))))),
                          sideText = sideText (scoreToDecision
                                 (jadd (jadd (jmul p (pattern (weights this)))
                                             (jmul c (cardPoints (weights this))))
                                       (jmul d (downRoad (weights this))))),
                          confidence = Math_min (lit 1) (Math_abs
                                 (jadd (jadd (jmul p (pattern (weights this)))
                                             (jmul c (cardPoints (weights this))))
                                       (jmul d (downRoad (weights this))))),
                          raw = \<lparr>patternScore = p, cardScore = c, downRoadScore = d,
                                 totalScore =
                                   jadd (jadd (jmul p (pattern (weights this)))
                                              (jmul c (cardPoints (weights this))))
                                        (jmul d (downRoad (weights this)))\<rparr>\<rparr>"
        and "this' = this"
        using assms unfolding predictNext_unfold p c d sum.case prod.inject sum.inject
        by blast+
      then show ?thesis using that[OF p c d] by simp
    qed
  qed
qed

lemma predictNext_value:
  assumes "evaluatePattern (destructure input ''beadRoad'' (JArr [])) = Inr p"
    and "evaluateCardPoints rt (destructure input ''bankerCards'' (JArr []))
           (destructure input ''playerCards'' (JArr [])) = Inr c"
    and "evaluateDownRoad rt (destructure input ''downRoad'' (JObj [])) = Inr d"
  shows "\<exists>out. predictNext rt this input = (Inr out, this)"
  using assms by (simp add: predictNext_unfold)

lemma scores_of_engine:
  assumes "evaluatePattern v = Inr p" and "evaluateCardPoints rt b q = Inr c"
    and "evaluateDownRoad rt w = Inr d"
  shows "\<exists>x y z t. p = Fin x \<and> c = Fin y \<and> d = Fin z
           \<and> \<bar>x\<bar> \<le> 2476979795053773 / 2251799813685248 \<and> \<bar>z\<bar> \<le> 1
           \<and> jadd (jadd (jmul p (pattern (weights PredictionEngine)))
                         (jmul c (cardPoints (weights PredictionEngine))))
                   (jmul d (downRoad (weights PredictionEngine))) = Fin t
           \<and> \<bar>t\<bar> \<le> 467248461339689 / 562949953421312"
proof -
  obtain x where x: "p = Fin x" "\<bar>x\<bar> \<le> 2476979795053773 / 2251799813685248"
    using evaluatePattern_bound[OF assms(1)] by blast
  obtain y where y: "c = Fin y" "\<bar>y\<bar> \<le> 5404319552844595 / 18014398509481984"
    using evaluateCardPoints_bound[OF assms(2)] by blast
  obtain z where z: "d = Fin z" "\<bar>z\<bar> \<le> 1"
    using evaluateDownRoad_bound[OF assms(3)] by blast
  obtain t where "jadd (jadd (jmul (Fin x) (lit 0.4)) (jmul (Fin y) (lit 0.3)))
                       (jmul (Fin z) (lit 0.3)) = Fin t"
    "\<bar>t\<bar> \<le> 467248461339689 / 562949953421312"
    using totalScore_bound[OF x(2) y(2) z(2)] by blast
  then show ?thesis
    using x y z by (simp add: PredictionEngine_def del: jadd.simps jmul.simps)
qed

lemma small_total: "\<bar>t\<bar> \<le> 467248461339689 / 562949953421312 \<Longrightarrow> \<bar>t :: rat\<bar> < 1"
  by simp

section \<open>Inputs on which the call returns\<close>

lemma returns_or_throws: "(\<exists>v. x = Inr v) \<or> x = Inl TypeError"
proof (cases x)
  case (Inl e)
  then show ?thesis by (cases e) simp
qed simp

lemma converts_iff: "converts rt c = (\<exists>v. toNumber rt c = Inr v)"
proof (cases c)
  case (JArr xs)
  then show ?thesis by (cases "ObjectToNumber rt (JArr xs)") simp_all
next
  case (JObj kvs)
  then show ?thesis by (cases "ObjectToNumber rt (JObj kvs)") simp_all
qed simp_all

lemma pointSumLoop_iff: "(\<exists>s'. pointSumLoop rt s cs = Inr s') = list_all (converts rt) cs"
proof (induction cs arbitrary: s)
  case Nil
  then show ?case by simp
next
  case (Cons c cs)
  show ?case
  proof (cases "toNumber rt c")
    case (Inl e)
    then have "\<not> converts rt c" by (simp add: converts_iff)
    then show ?thesis using Inl by simp
  next
    case (Inr v)
    then have "converts rt c" by (simp add: converts_iff)
    then show ?thesis using Inr Cons.IH by (simp add: Let_def)
  qed
qed

lemma baccaratPointSum_iff:
  "(\<exists>t. baccaratPointSum rt cs = Inr t) = list_all (converts rt) cs"
proof -
  have "(\<exists>t. baccaratPointSum rt cs = Inr t) = (\<exists>s'. pointSumLoop rt (lit 0) cs = Inr s')"
    by (cases "pointSumLoop rt (lit 0) cs") (simp_all add: baccaratPointSum_def)
  then show ?thesis by (simp only: pointSumLoop_iff)
qed

lemma evaluateCardPoints_iff:
  "(\<exists>c. evaluateCardPoints rt b p = Inr c)
     = (\<not> isArray b \<or> \<not> isArray p
        \<or> list_all (converts rt) (elements b) \<and> list_all (converts rt) (elements p))"
proof (cases "\<not> isArray b \<or> \<not> isArray p")
  case True
  then show ?thesis by (auto simp: evaluateCardPoints_def)
next
  case False
  show ?thesis
  proof (cases "baccaratPointSum rt (elements b)")
    case (Inl e)
    then have "\<not> list_all (converts rt) (elements b)"
      using baccaratPointSum_iff[of rt "elements b"] by simp
    then show ?thesis using False Inl by (simp add: evaluateCardPoints_def)
  next
    case x: (Inr x)
    then have bs: "list_all (converts rt) (elements b)"
      using baccaratPointSum_iff[of rt "elements b"] by simp
    show ?thesis
    proof (cases "baccaratPointSum rt (elements p)")
      case (Inl e)
      then have "\<not> list_all (converts rt) (elements p)"
        using baccaratPointSum_iff[of rt "elements p"] by simp
      then show ?thesis using False x Inl by (simp add: evaluateCardPoints_def)
    next
      case (Inr y)
      then have "list_all (converts rt) (elements p)"
        using baccaratPointSum_iff[of rt "elements p"] by simp
      then show ?thesis using False x Inr bs by (simp add: evaluateCardPoints_def Let_def)
    qed
  qed
qed

lemma destructure_defined: "d \<noteq> JUndefined \<Longrightarrow> destructure v k d \<noteq> JUndefined"
  by (simp add: destructure_def Let_def)

lemma lastEntry_iff: "(\<exists>e. lastEntry rt v = Inr e) = readable rt v"
proof (cases v)
  case (JObj kvs)
  show ?thesis
  proof (cases "toNumber rt (getProp (JObj kvs) ''length'')")
    case (Inl e)
    then have "\<not> converts rt (getProp (JObj kvs) ''length'')" by (simp add: converts_iff)
    then show ?thesis using JObj Inl by simp
  next
    case (Inr n)
    then have "converts rt (getProp (JObj kvs) ''length'')" by (simp add: converts_iff)
    then show ?thesis using JObj Inr by simp
  qed
qed simp_all

lemma evaluateDownRoad_iff:
  "(\<exists>d. evaluateDownRoad rt w = Inr d)
     = (readable rt (destructure w ''bigEye'' (JArr []))
        \<and> readable rt (destructure w ''smallRoad'' (JArr []))
        \<and> readable rt (destructure w ''cockroach'' (JArr [])))"
proof -
  have "(\<exists>d. evaluateDownRoad rt w = Inr d)
          = ((\<exists>e. lastEntry rt (destructure w ''bigEye'' (JArr [])) = Inr e)
             \<and> (\<exists>e. lastEntry rt (destructure w ''smallRoad'' (JArr [])) = Inr e)
             \<and> (\<exists>e. lastEntry rt (destructure w ''cockroach'' (JArr [])) = Inr e))"
    by (cases "lastEntry rt (destructure w ''bigEye'' (JArr []))";
        cases "lastEntry rt (destructure w ''smallRoad'' (JArr []))";
        cases "lastEntry rt (destructure w ''cockroach'' (JArr []))")
       (simp_all add: evaluateDownRoad_def Let_def del: jadd.simps jdiv.simps)
  then show ?thesis by (simp only: lastEntry_iff)
qed

lemma evaluatePattern_iff:
  "(\<exists>p. evaluatePattern v = Inr p)
     = (\<not> truthy v \<or> getProp v ''length'' = JNum (Fin 0) \<or> isArray v)"
proof (cases "\<not> truthy v \<or> getProp v ''length'' = JNum (Fin 0)")
  case True
  then show ?thesis by (auto simp: evaluatePattern_def)
next
  case False
  then show ?thesis
    by (cases v) (simp_all add: evaluatePattern_def Let_def del: jadd.simps jdiv.simps)
qed

lemma predictNext_iff:
  "(\<exists>out. predictNext rt this input = (Inr out, this)) = accepted rt input"
proof -
  have "(\<exists>out. predictNext rt this input = (Inr out, this))
          = ((\<exists>p. evaluatePattern (destructure input ''beadRoad'' (JArr [])) = Inr p)
             \<and> (\<exists>c. evaluateCardPoints rt (destructure input ''bankerCards'' (JArr []))
                       (destructure input ''playerCards'' (JArr [])) = Inr c)
             \<and> (\<exists>d. evaluateDownRoad rt (destructure input ''downRoad'' (JObj [])) = Inr d))"
    by (cases "evaluatePattern (destructure input ''beadRoad'' (JArr []))";
        cases "evaluateCardPoints rt (destructure input ''bankerCards'' (JArr []))
                 (destructure input ''playerCards'' (JArr []))";
        cases "evaluateDownRoad rt (destructure input ''downRoad'' (JObj []))")
       (simp_all add: predictNext_unfold)
  then show ?thesis
    by (simp only: evaluatePattern_iff evaluateCardPoints_iff evaluateDownRoad_iff
        accepted_def Let_def)
qed

lemma predictNext_outcome:
  "(\<exists>out. predictNext rt this input = (Inr out, this))
   \<or> predictNext rt this input = (Inl TypeError, this)"
proof -
  have "snd (predictNext rt this input) = this"
    by (cases "evaluatePattern (destructure input ''beadRoad'' (JArr []))";
        cases "evaluateCardPoints rt (destructure input ''bankerCards'' (JArr []))
                 (destructure input ''playerCards'' (JArr []))";
        cases "evaluateDownRoad rt (destructure input ''downRoad'' (JObj []))")
       (simp_all add: predictNext_unfold)
  then have "predictNext rt this input = (fst (predictNext rt this input), this)"
    by (metis prod.collapse)
  then show ?thesis
    using returns_or_throws[of "fst (predictNext rt this input)"] by metis
qed

lemma side_values: "side (scoreToDecision t) \<in> {''BANKER'', ''PLAYER''}"
  by (simp add: scoreToDecision_def)

section \<open>The program on concrete inputs\<close>

lemma predictNext_scores:
  assumes "evaluatePattern (destructure input ''beadRoad'' (JArr [])) = Inr p"
    and "evaluateCardPoints rt (destructure input ''bankerCards'' (JArr []))
           (destructure input ''playerCards'' (JArr [])) = Inr c"
    and "evaluateDownRoad rt (destructure input ''downRoad'' (JObj [])) = Inr d"
    and "jadd (jadd (jmul p (lit 0.4)) (jmul c (lit 0.3))) (jmul d (lit 0.3)) = t"
  shows "predictNext rt PredictionEngine input =
           (Inr \<lparr>side = side (scoreToDecision t), sideText = sideText (scoreToDecision t),
                 confidence = Math_min (lit 1) (Math_abs t),
                 raw = \<lparr>patternScore = p, cardScore = c, downRoadScore = d,
                        totalScore = t\<rparr>\<rparr>,
            PredictionEngine)"
proof -
  have w: "pattern (weights PredictionEngine) = lit 0.4"
    "cardPoints (weights PredictionEngine) = lit 0.3"
    "downRoad (weights PredictionEngine) = lit 0.3"
    by (simp_all add: PredictionEngine_def)
  show ?thesis
    unfolding predictNext_unfold assms(1,2,3) sum.case w assms(4) ..
qed

lemma cards_none_five: "evaluateCardPoints rt (JArr []) (JArr [rank 5]) = Inr (lit 0.3)"
proof -
  have "baccaratPointSum rt (map rank []) = Inr (Fin 0)"
    using baccaratPointSum_ranks[of "[]" rt] by (simp add: spec_pointSum_def)
  moreover have "baccaratPointSum rt (map rank [5]) = Inr (Fin 5)"
    using baccaratPointSum_ranks[of "[5]" rt] by (simp add: spec_pointSum_def cardPoint_def)
  moreover have "jsub (Fin 0) (Fin 5) = Fin (- 5)"
    using jsub_nat[of 0 5] by simp
  ultimately show ?thesis
    by (simp add: evaluateCardPoints_def Let_def jgt_def lit_vals)
qed

lemma cards_demo: "evaluateCardPoints rt (JArr [rank 4, rank 6]) (JArr [rank 9, rank 1]) = Inr (lit 0)"
proof -
  have "baccaratPointSum rt (map rank [4, 6]) = Inr (Fin 0)"
    using baccaratPointSum_ranks[of "[4, 6]" rt] by (simp add: spec_pointSum_def cardPoint_def)
  moreover have "baccaratPointSum rt (map rank [9, 1]) = Inr (Fin 0)"
    using baccaratPointSum_ranks[of "[9, 1]" rt] by (simp add: spec_pointSum_def cardPoint_def)
  ultimately show ?thesis
    using decide_same[of "Fin 0"] by (simp add: evaluateCardPoints_def Let_def)
qed

lemma pattern_one_banker:
  "evaluatePattern (JArr [BANKER]) = Inr (Fin (2476979795053773 / 2251799813685248))"
  by code_simp

lemma pattern_demo:
  "evaluatePattern (JArr [BANKER, PLAYER, BANKER, BANKER, PLAYER,
                          BANKER, BANKER, PLAYER, BANKER, BANKER]) = Inr (Fin (1/2))"
  by code_simp

lemma rnd_third: "rnd (1/3) = 6004799503160661 / 18014398509481984"
  by code_simp

lemma downRoad_demo:
  "evaluateDownRoad rt (downRoadOf [RED, RED, RED, RED] [RED, RED, BLUE] [RED, RED, RED])
     = Inr (Fin (6004799503160661 / 18014398509481984))"
  by (simp add: evaluateDownRoad_arrays spec_contribution_def RED_def BLUE_def rnd_third)

lemma downRoad_red:
  "evaluateDownRoad rt (downRoadOf [RED] [RED] [RED]) = Inr (Fin 1)"
  by (simp add: evaluateDownRoad_arrays spec_contribution_def rnd_1)

lemma downRoad_absent: "evaluateDownRoad rt (JObj []) = Inr (Fin 0)"
proof -
  have "evaluateDownRoad rt (JObj []) = evaluateDownRoad rt (downRoadOf [] [] [])"
    by (simp add: evaluateDownRoad_def downRoadOf_def destructure_def Let_def
        del: jadd.simps jdiv.simps)
  then show ?thesis by (simp add: evaluateDownRoad_arrays spec_contribution_def)
qed

lemma total_extreme:
  "jadd (jadd (jmul (Fin (2476979795053773 / 2251799813685248)) (lit 0.4))
              (jmul (lit 0.3) (lit 0.3)))
        (jmul (Fin 1) (lit 0.3))
     = Fin (467248461339689 / 562949953421312)"
  by code_simp

lemma total_demo:
  "jadd (jadd (jmul (Fin (1/2)) (lit 0.4)) (jmul (lit 0) (lit 0.3)))
        (jmul (Fin (6004799503160661 / 18014398509481984)) (lit 0.3))
     = Fin (5404319552844595 / 18014398509481984)"
  by code_simp

lemma total_zero:
  "jadd (jadd (jmul (lit 0) (lit 0.4)) (jmul (lit 0) (lit 0.3))) (jmul (Fin 0) (lit 0.3)) = Fin 0"
  by code_simp

lemma total_cards:
  "jadd (jadd (jmul (lit 0) (lit 0.4)) (jmul (lit 0.3) (lit 0.3))) (jmul (Fin 0) (lit 0.3))
     = Fin (3242591731706757 / 36028797018963968)"
  by code_simp

lemma run_demo:
  "predictNext rt PredictionEngine demoInput =
     (Inr \<lparr>side = ''BANKER'', sideText = zhuang,
           confidence = Fin (5404319552844595 / 18014398509481984),
           raw = \<lparr>patternScore = Fin (1/2), cardScore = Fin 0,
                  downRoadScore = Fin (6004799503160661 / 18014398509481984),
                  totalScore = Fin (5404319552844595 / 18014398509481984)\<rparr>\<rparr>,
      PredictionEngine)"
proof -
  have p: "evaluatePattern (destructure demoInput ''beadRoad'' (JArr [])) = Inr (Fin (1/2))"
    using pattern_demo by (simp add: destructure_def demoInput_def)
  have c: "evaluateCardPoints rt (destructure demoInput ''bankerCards'' (JArr []))
             (destructure demoInput ''playerCards'' (JArr [])) = Inr (lit 0)"
    using cards_demo[of rt] by (simp add: destructure_def demoInput_def)
  have d: "evaluateDownRoad rt (destructure demoInput ''downRoad'' (JObj []))
             = Inr (Fin (6004799503160661 / 18014398509481984))"
    using downRoad_demo[of rt] by (simp add: destructure_def demoInput_def downRoadOf_def)
  show ?thesis
    unfolding predictNext_scores[OF p c d total_demo]
    by (simp add: scoreToDecision_def jgt_def Math_min_def lit_vals)
qed

lemma run_extreme:
  "predictNext rt PredictionEngine
     (JObj [(''beadRoad'', JArr [BANKER]), (''bankerCards'', JArr []),
            (''playerCards'', JArr [rank 5]), (''downRoad'', downRoadOf [RED] [RED] [RED])]) =
     (Inr \<lparr>side = ''BANKER'', sideText = zhuang,
           confidence = Fin (467248461339689 / 562949953421312),
           raw = \<lparr>patternScore = Fin (2476979795053773 / 2251799813685248),
                  cardScore = Fin (5404319552844595 / 18014398509481984),
                  downRoadScore = Fin 1,
                  totalScore = Fin (467248461339689 / 562949953421312)\<rparr>\<rparr>,
      PredictionEngine)"
  (is "predictNext rt PredictionEngine ?input = _")
proof -
  have p: "evaluatePattern (destructure ?input ''beadRoad'' (JArr []))
             = Inr (Fin (2476979795053773 / 2251799813685248))"
    using pattern_one_banker by (simp add: destructure_def)
  have c: "evaluateCardPoints rt (destructure ?input ''bankerCards'' (JArr []))
             (destructure ?input ''playerCards'' (JArr [])) = Inr (lit 0.3)"
    using cards_none_five[of rt] by (simp add: destructure_def)
  have d: "evaluateDownRoad rt (destructure ?input ''downRoad'' (JObj [])) = Inr (Fin 1)"
    using downRoad_red[of rt] by (simp add: destructure_def downRoadOf_def)
  show ?thesis
    unfolding predictNext_scores[OF p c d total_extreme]
    by (simp add: scoreToDecision_def jgt_def Math_min_def lit_vals)
qed

lemma run_text_cards:
  "predictNext rt PredictionEngine
     (JObj [(''bankerCards'', JStr ''46''), (''playerCards'', JArr [rank 5])]) =
     (Inr \<lparr>side = ''PLAYER'', sideText = xian, confidence = Fin 0,
           raw = \<lparr>patternScore = Fin 0, cardScore = Fin 0, downRoadScore = Fin 0,
                  totalScore = Fin 0\<rparr>\<rparr>,
      PredictionEngine)"
  (is "predictNext rt PredictionEngine ?input = _")
proof -
  have p: "evaluatePattern (destructure ?input ''beadRoad'' (JArr [])) = Inr (lit 0)"
    by (simp add: destructure_def evaluatePattern_def)
  have c: "evaluateCardPoints rt (destructure ?input ''bankerCards'' (JArr []))
             (destructure ?input ''playerCards'' (JArr [])) = Inr (lit 0)"
    by (simp add: destructure_def evaluateCardPoints_def)
  have d: "evaluateDownRoad rt (destructure ?input ''downRoad'' (JObj [])) = Inr (Fin 0)"
    using downRoad_absent[of rt] by (simp add: destructure_def)
  show ?thesis
    unfolding predictNext_scores[OF p c d total_zero]
    by (simp add: scoreToDecision_def jgt_def Math_min_def lit_vals)
qed

lemma run_no_banker_cards:
  "predictNext rt PredictionEngine
     (JObj [(''bankerCards'', JArr []), (''playerCards'', JArr [rank 5])]) =
     (Inr \<lparr>side = ''BANKER'', sideText = zhuang,
           confidence = Fin (3242591731706757 / 36028797018963968),
           raw = \<lparr>patternScore = Fin 0,
                  cardScore = Fin (5404319552844595 / 18014398509481984),
                  downRoadScore = Fin 0,
                  totalScore = Fin (3242591731706757 / 36028797018963968)\<rparr>\<rparr>,
      PredictionEngine)"
  (is "predictNext rt PredictionEngine ?input = _")
proof -
  have p: "evaluatePattern (destructure ?input ''beadRoad'' (JArr [])) = Inr (lit 0)"
    by (simp add: destructure_def evaluatePattern_def)
  have c: "evaluateCardPoints rt (destructure ?input ''bankerCards'' (JArr []))
             (destructure ?input ''playerCards'' (JArr [])) = Inr (lit 0.3)"
    using cards_none_five[of rt] by (simp add: destructure_def)
  have d: "evaluateDownRoad rt (destructure ?input ''downRoad'' (JObj [])) = Inr (Fin 0)"
    using downRoad_absent[of rt] by (simp add: destructure_def)
  show ?thesis
    unfolding predictNext_scores[OF p c d total_cards]
    by (simp add: scoreToDecision_def jgt_def Math_min_def lit_vals)
qed

section \<open>The claims\<close>

text \<open>
  Claim C1, as amended. \<open>predictNext\<close> returns exactly on the inputs where \<open>beadRoad\<close> is
  absent, falsy, of length 0 or an array, where \<open>bankerCards\<close> and \<open>playerCards\<close> are not
  both arrays or every entry of both converts to a number, and where each of \<open>bigEye\<close>,
  \<open>smallRoad\<close> and \<open>cockroach\<close> is absent or neither \<open>null\<close> nor an object whose \<open>length\<close>
  fails to convert. There the side is BANKER or PLAYER and the confidence lies in the
  closed interval from 0 to 1. On every other input the call throws a TypeError. The
  input itself, and \<open>downRoad\<close>, can be any value.
\<close>

theorem predictNext_returns_or_throws:
  "(accepted rt input \<longrightarrow>
     (\<exists>out. predictNext rt PredictionEngine input = (Inr out, PredictionEngine)
        \<and> side out \<in> {''BANKER'', ''PLAYER''}
        \<and> (\<exists>c. confidence out = Fin c \<and> 0 \<le> c \<and> c \<le> 1)))
   \<and> (\<not> accepted rt input \<longrightarrow>
        predictNext rt PredictionEngine input = (Inl TypeError, PredictionEngine))"
proof (intro conjI impI)
  assume "accepted rt input"
  then obtain out where out: "predictNext rt PredictionEngine input = (Inr out, PredictionEngine)"
    using predictNext_iff[of rt PredictionEngine input] by blast
  from out obtain p' c' d' where r:
    "evaluatePattern (destructure input ''beadRoad'' (JArr [])) = Inr p'"
    "evaluateCardPoints rt (destructure input ''bankerCards'' (JArr []))
       (destructure input ''playerCards'' (JArr [])) = Inr c'"
    "evaluateDownRoad rt (destructure input ''downRoad'' (JObj [])) = Inr d'"
    "raw out = \<lparr>patternScore = p', cardScore = c', downRoadScore = d',
               totalScore = jadd (jadd (jmul p' (pattern (weights PredictionEngine)))
                                       (jmul c' (cardPoints (weights PredictionEngine))))
                                 (jmul d' (downRoad (weights PredictionEngine)))\<rparr>"
    "side out = side (scoreToDecision (totalScore (raw out)))"
    "confidence out = Math_min (lit 1) (Math_abs (totalScore (raw out)))"
    by (rule predictNext_returns)
  from scores_of_engine[OF r(1,2,3)] obtain t where t:
    "jadd (jadd (jmul p' (pattern (weights PredictionEngine)))
                (jmul c' (cardPoints (weights PredictionEngine))))
          (jmul d' (downRoad (weights PredictionEngine))) = Fin t"
    "\<bar>t\<bar> \<le> 467248461339689 / 562949953421312"
    by blast
  have lt: "\<bar>t\<bar> < 1" using t(2) by (rule small_total)
  have tot: "totalScore (raw out) = Fin t" using r(4) t(1) by simp
  have conf: "confidence out = Fin \<bar>t\<bar>"
    using r(6) confidence_of_total[OF lt] by (simp only: tot)
  have "side out \<in> {''BANKER'', ''PLAYER''}" using r(5) side_values by simp
  moreover have "\<exists>c. confidence out = Fin c \<and> 0 \<le> c \<and> c \<le> 1"
    using conf lt by (intro exI[of _ "\<bar>t\<bar>"]) simp
  ultimately show "\<exists>out. predictNext rt PredictionEngine input = (Inr out, PredictionEngine)
        \<and> side out \<in> {''BANKER'', ''PLAYER''}
        \<and> (\<exists>c. confidence out = Fin c \<and> 0 \<le> c \<and> c \<le> 1)"
    using out by blast
next
  assume "\<not> accepted rt input"
  then have "\<not> (\<exists>out. predictNext rt PredictionEngine input = (Inr out, PredictionEngine))"
    using predictNext_iff[of rt PredictionEngine input] by blast
  then show "predictNext rt PredictionEngine input = (Inl TypeError, PredictionEngine)"
    using predictNext_outcome[of rt PredictionEngine input] by blast
qed

theorem predictNext_returns_or_throws_witness:
  "accepted noCoercion demoInput
   \<and> (\<exists>out. predictNext noCoercion PredictionEngine demoInput = (Inr out, PredictionEngine)
        \<and> side out \<in> {''BANKER'', ''PLAYER''}
        \<and> (\<exists>c. confidence out = Fin c \<and> 0 \<le> c \<and> c \<le> 1))
   \<and> accepted noCoercion JUndefined
   \<and> (\<exists>out. predictNext noCoercion PredictionEngine JUndefined = (Inr out, PredictionEngine)
        \<and> side out \<in> {''BANKER'', ''PLAYER''}
        \<and> (\<exists>c. confidence out = Fin c \<and> 0 \<le> c \<and> c \<le> 1))
   \<and> accepted noCoercion (JObj [(''beadRoad'', JObj [(''length'', JNum (Fin 0))]),
                                 (''downRoad'', JObj [(''bigEye'', JObj [])])])
   \<and> (\<exists>out. predictNext noCoercion PredictionEngine
              (JObj [(''beadRoad'', JObj [(''length'', JNum (Fin 0))]),
                     (''downRoad'', JObj [(''bigEye'', JObj [])])])
            = (Inr out, PredictionEngine)
        \<and> side out \<in> {''BANKER'', ''PLAYER''}
        \<and> (\<exists>c. confidence out = Fin c \<and> 0 \<le> c \<and> c \<le> 1))
   \<and> \<not> accepted noCoercion (JObj [(''beadRoad'', JBool True)])
   \<and> predictNext noCoercion PredictionEngine (JObj [(''beadRoad'', JBool True)])
       = (Inl TypeError, PredictionEngine)
   \<and> \<not> accepted noCoercion (JObj [(''downRoad'', JObj [(''cockroach'', JNull)])])
   \<and> predictNext noCoercion PredictionEngine (JObj [(''downRoad'', JObj [(''cockroach'', JNull)])])
       = (Inl TypeError, PredictionEngine)"
proof -
  have a: "accepted noCoercion demoInput" by code_simp
  have b: "accepted noCoercion JUndefined" by code_simp
  have c: "accepted noCoercion (JObj [(''beadRoad'', JObj [(''length'', JNum (Fin 0))]),
                                      (''downRoad'', JObj [(''bigEye'', JObj [])])])"
    by code_simp
  have d: "\<not> accepted noCoercion (JObj [(''beadRoad'', JBool True)])" by code_simp
  have e: "\<not> accepted noCoercion (JObj [(''downRoad'', JObj [(''cockroach'', JNull)])])"
    by code_simp
  show ?thesis
    using predictNext_returns_or_throws[of noCoercion demoInput]
      predictNext_returns_or_throws[of noCoercion JUndefined]
      predictNext_returns_or_throws[of noCoercion
        "JObj [(''beadRoad'', JObj [(''length'', JNum (Fin 0))]),
               (''downRoad'', JObj [(''bigEye'', JObj [])])]"]
      predictNext_returns_or_throws[of noCoercion "JObj [(''beadRoad'', JBool True)]"]
      predictNext_returns_or_throws[of noCoercion
        "JObj [(''downRoad'', JObj [(''cockroach'', JNull)])]"]
      a b c d e
    by blast
qed

text \<open>
  The claim as stated, for every input shape, fails: a \<open>beadRoad\<close> that is a number or a
  non-empty string, and a \<open>bigEye\<close> that is \<open>null\<close>, make the call throw a TypeError.
\<close>

theorem predictNext_throws:
  "predictNext noCoercion PredictionEngine (JObj [(''beadRoad'', JNum (Fin 5))])
     = (Inl TypeError, PredictionEngine)
   \<and> predictNext noCoercion PredictionEngine (JObj [(''beadRoad'', JStr ''BPB'')])
     = (Inl TypeError, PredictionEngine)
   \<and> predictNext noCoercion PredictionEngine (JObj [(''downRoad'', JObj [(''bigEye'', JNull)])])
     = (Inl TypeError, PredictionEngine)"
proof -
  have empty: "evaluateCardPoints noCoercion (JArr []) (JArr []) = Inr (lit 0)"
    using baccaratPointSum_ranks[of "[]" noCoercion] decide_same[of "Fin 0"]
    by (simp add: evaluateCardPoints_def Let_def spec_pointSum_def)
  show ?thesis
    by (simp add: predictNext_unfold destructure_def evaluatePattern_def empty
        evaluateDownRoad_def)
qed

text \<open>
  Claim C2, as amended. When \<open>bankerCards\<close> or \<open>playerCards\<close> is present and not an array,
  the card sub-score is 0 whatever the other hand holds, and the pattern and down-road
  sub-scores are those of \<open>beadRoad\<close> and \<open>downRoad\<close> as usual. An absent \<open>bankerCards\<close> is
  the empty array. With the empty array for \<open>bankerCards\<close> and an array \<open>playerCards\<close> of
  digit \<open>y\<close>, the card sub-score is 0.3 when \<open>y\<close> is greater than 0, -0.3 when it is less,
  and 0 otherwise: it is the sub-score of a \<open>bankerCards\<close> that is not an array exactly when
  \<open>y\<close> is 0 or NaN.
\<close>

theorem nonArray_cards_neutral:
  "(\<not> isArray b \<or> \<not> isArray p \<longrightarrow> evaluateCardPoints rt b p = Inr (lit 0))
   \<and> ((\<not> isArray (destructure input ''bankerCards'' (JArr []))
         \<or> \<not> isArray (destructure input ''playerCards'' (JArr [])))
        \<and> predictNext rt this input = (Inr out, this')
        \<longrightarrow> cardScore (raw out) = lit 0
            \<and> evaluatePattern (destructure input ''beadRoad'' (JArr []))
                = Inr (patternScore (raw out))
            \<and> evaluateDownRoad rt (destructure input ''downRoad'' (JObj []))
                = Inr (downRoadScore (raw out)))
   \<and> (map_of kvs ''bankerCards'' = None \<longrightarrow>
        predictNext rt this (JObj kvs)
          = predictNext rt this (JObj ((''bankerCards'', JArr []) # kvs)))
   \<and> (\<not> isArray b' \<and> baccaratPointSum rt ps = Inr y \<longrightarrow>
        evaluateCardPoints rt (JArr []) (JArr ps)
          = Inr (if jgt y (lit 0) then lit 0.3 else if jlt y (lit 0) then lit (- 0.3) else lit 0)
        \<and> (evaluateCardPoints rt b' (JArr ps) = evaluateCardPoints rt (JArr []) (JArr ps))
            = (y = Fin 0 \<or> y = NaN))"
proof (intro conjI impI)
  assume "\<not> isArray b \<or> \<not> isArray p"
  then show "evaluateCardPoints rt b p = Inr (lit 0)"
    by (auto simp: evaluateCardPoints_def)
next
  assume h: "(\<not> isArray (destructure input ''bankerCards'' (JArr []))
              \<or> \<not> isArray (destructure input ''playerCards'' (JArr [])))
             \<and> predictNext rt this input = (Inr out, this')"
  then have call: "predictNext rt this input = (Inr out, this')" by simp
  from call obtain p' c' d' where r:
    "evaluatePattern (destructure input ''beadRoad'' (JArr [])) = Inr p'"
    "evaluateCardPoints rt (destructure input ''bankerCards'' (JArr []))
       (destructure input ''playerCards'' (JArr [])) = Inr c'"
    "evaluateDownRoad rt (destructure input ''downRoad'' (JObj [])) = Inr d'"
    "raw out = \<lparr>patternScore = p', cardScore = c', downRoadScore = d',
               totalScore = jadd (jadd (jmul p' (pattern (weights this)))
                                       (jmul c' (cardPoints (weights this))))
                                 (jmul d' (downRoad (weights this)))\<rparr>"
    by (rule predictNext_returns)
  have "c' = lit 0" using h r(2) by (auto simp: evaluateCardPoints_def)
  then show "cardScore (raw out) = lit 0"
    and "evaluatePattern (destructure input ''beadRoad'' (JArr [])) = Inr (patternScore (raw out))"
    and "evaluateDownRoad rt (destructure input ''downRoad'' (JObj []))
           = Inr (downRoadScore (raw out))"
    using r by simp_all
next
  assume n: "map_of kvs ''bankerCards'' = None"
  have same: "destructure (JObj ((''bankerCards'', JArr []) # kvs)) k d = destructure (JObj kvs) k d"
    if "k \<noteq> ''bankerCards''" for k d
    using that by (simp add: destructure_def)
  have dflt: "destructure (JObj ((''bankerCards'', JArr []) # kvs)) ''bankerCards'' (JArr [])
                = destructure (JObj kvs) ''bankerCards'' (JArr [])"
    using n by (simp add: destructure_def)
  have s1: "destructure (JObj ((''bankerCards'', JArr []) # kvs)) ''beadRoad'' (JArr [])
              = destructure (JObj kvs) ''beadRoad'' (JArr [])"
    by (rule same) simp
  have s2: "destructure (JObj ((''bankerCards'', JArr []) # kvs)) ''playerCards'' (JArr [])
              = destructure (JObj kvs) ''playerCards'' (JArr [])"
    by (rule same) simp
  have s3: "destructure (JObj ((''bankerCards'', JArr []) # kvs)) ''downRoad'' (JObj [])
              = destructure (JObj kvs) ''downRoad'' (JObj [])"
    by (rule same) simp
  show "predictNext rt this (JObj kvs)
          = predictNext rt this (JObj ((''bankerCards'', JArr []) # kvs))"
    unfolding predictNext_unfold dflt s1 s2 s3 ..
next
  assume h: "\<not> isArray b' \<and> baccaratPointSum rt ps = Inr y"
  have shape: "y = NaN \<or> (\<exists>r. y = toDouble r)"
    using h digit_shape by blast
  have zero: "Fin 0 = NaN \<or> (\<exists>r. Fin 0 = toDouble r)"
    using toDouble_0 by metis
  have gt: "jgt (jsub (Fin 0) y) (lit 0) = jlt y (lit 0)"
    using digit_compare(1)[OF zero shape] by (simp add: jgt_def lit_vals)
  have lt: "jlt (jsub (Fin 0) y) (lit 0) = jgt y (lit 0)"
    using digit_compare(2)[OF zero shape] by (simp add: jgt_def lit_vals)
  have excl: "\<not> (jgt y (lit 0) \<and> jlt y (lit 0))"
    by (cases y) (simp_all add: jgt_def lit_vals)
  show empty: "evaluateCardPoints rt (JArr []) (JArr ps)
          = Inr (if jgt y (lit 0) then lit 0.3 else if jlt y (lit 0) then lit (- 0.3) else lit 0)"
    using h excl by (auto simp: evaluateCardPoints_def baccaratPointSum_empty Let_def gt lt)
  have none: "evaluateCardPoints rt b' (JArr ps) = Inr (lit 0)"
    using h by (simp add: evaluateCardPoints_def)
  have sign: "(\<not> jgt y (lit 0) \<and> \<not> jlt y (lit 0)) = (y = Fin 0 \<or> y = NaN)"
    by (cases y) (auto simp: jgt_def lit_vals)
  show "(evaluateCardPoints rt b' (JArr ps) = evaluateCardPoints rt (JArr []) (JArr ps))
            = (y = Fin 0 \<or> y = NaN)"
    unfolding none empty sign[symmetric] by (simp add: lit_vals)
qed

theorem nonArray_cards_neutral_witness:
  "\<not> isArray (JStr ''46'')
   \<and> evaluateCardPoints noCoercion (JStr ''46'') (JArr [rank 5]) = Inr (lit 0)
   \<and> \<not> isArray (destructure (JObj [(''bankerCards'', JStr ''46''), (''playerCards'', JArr [rank 5])])
                    ''bankerCards'' (JArr []))
   \<and> predictNext noCoercion PredictionEngine
         (JObj [(''bankerCards'', JStr ''46''), (''playerCards'', JArr [rank 5])]) =
       (Inr \<lparr>side = ''PLAYER'', sideText = xian, confidence = Fin 0,
             raw = \<lparr>patternScore = Fin 0, cardScore = Fin 0, downRoadScore = Fin 0,
                    totalScore = Fin 0\<rparr>\<rparr>,
        PredictionEngine)
   \<and> evaluatePattern (destructure (JObj [(''bankerCards'', JStr ''46''),
                                          (''playerCards'', JArr [rank 5])])
                        ''beadRoad'' (JArr [])) = Inr (Fin 0)
   \<and> map_of [(''playerCards'', JArr [rank 5])] ''bankerCards'' = None
   \<and> predictNext noCoercion PredictionEngine (JObj [(''playerCards'', JArr [rank 5])])
       = predictNext noCoercion PredictionEngine
           (JObj [(''bankerCards'', JArr []), (''playerCards'', JArr [rank 5])])
   \<and> baccaratPointSum noCoercion [rank 5] = Inr (Fin 5)
   \<and> evaluateCardPoints noCoercion (JStr ''46'') (JArr [rank 5])
       \<noteq> evaluateCardPoints noCoercion (JArr []) (JArr [rank 5])
   \<and> baccaratPointSum noCoercion [JNum NegInf] = Inr NaN
   \<and> evaluateCardPoints noCoercion (JStr ''46'') (JArr [JNum NegInf])
       = evaluateCardPoints noCoercion (JArr []) (JArr [JNum NegInf])"
proof -
  have d: "destructure (JObj [(''bankerCards'', JStr ''46''), (''playerCards'', JArr [rank 5])])
             ''bankerCards'' (JArr []) = JStr ''46''"
    by (simp add: destructure_def)
  have five: "baccaratPointSum noCoercion [rank 5] = Inr (Fin 5)"
    using baccaratPointSum_ranks[of "[5]" noCoercion]
    by (simp add: spec_pointSum_def cardPoint_def)
  have inf: "baccaratPointSum noCoercion [JNum NegInf] = Inr NaN"
    by (simp add: baccaratPointSum_def isNaN_def jge_def lit_vals)
  have str: "\<not> isArray (JStr ''46'')" by simp
  have first: "\<not> isArray (JStr ''46'')
   \<and> evaluateCardPoints noCoercion (JStr ''46'') (JArr [rank 5]) = Inr (lit 0)
   \<and> \<not> isArray (destructure (JObj [(''bankerCards'', JStr ''46''), (''playerCards'', JArr [rank 5])])
                    ''bankerCards'' (JArr []))
   \<and> predictNext noCoercion PredictionEngine
         (JObj [(''bankerCards'', JStr ''46''), (''playerCards'', JArr [rank 5])]) =
       (Inr \<lparr>side = ''PLAYER'', sideText = xian, confidence = Fin 0,
             raw = \<lparr>patternScore = Fin 0, cardScore = Fin 0, downRoadScore = Fin 0,
                    totalScore = Fin 0\<rparr>\<rparr>,
        PredictionEngine)
   \<and> evaluatePattern (destructure (JObj [(''bankerCards'', JStr ''46''),
                                          (''playerCards'', JArr [rank 5])])
                        ''beadRoad'' (JArr [])) = Inr (Fin 0)
   \<and> map_of [(''playerCards'', JArr [rank 5])] ''bankerCards'' = None
   \<and> predictNext noCoercion PredictionEngine (JObj [(''playerCards'', JArr [rank 5])])
       = predictNext noCoercion PredictionEngine
           (JObj [(''bankerCards'', JArr []), (''playerCards'', JArr [rank 5])])"
    using nonArray_cards_neutral[where b = "JStr ''46''" and p = "JArr [rank 5]"
        and rt = noCoercion
        and input = "JObj [(''bankerCards'', JStr ''46''), (''playerCards'', JArr [rank 5])]"
        and this = PredictionEngine
        and out = "\<lparr>side = ''PLAYER'', sideText = xian, confidence = Fin 0,
          raw = \<lparr>patternScore = Fin 0, cardScore = Fin 0, downRoadScore = Fin 0,
                 totalScore = Fin 0\<rparr>\<rparr>"
        and this' = PredictionEngine and kvs = "[(''playerCards'', JArr [rank 5])]"]
      run_text_cards[of noCoercion]
    by (simp add: d lit_vals)
  have "(evaluateCardPoints noCoercion (JStr ''46'') (JArr [rank 5])
          = evaluateCardPoints noCoercion (JArr []) (JArr [rank 5]))
        = (Fin 5 = Fin 0 \<or> Fin 5 = NaN)"
    using nonArray_cards_neutral[where b' = "JStr ''46''" and ps = "[rank 5]"
        and rt = noCoercion and y = "Fin 5"] five str
    by blast
  then have second: "evaluateCardPoints noCoercion (JStr ''46'') (JArr [rank 5])
       \<noteq> evaluateCardPoints noCoercion (JArr []) (JArr [rank 5])"
    by simp
  have "(evaluateCardPoints noCoercion (JStr ''46'') (JArr [JNum NegInf])
          = evaluateCardPoints noCoercion (JArr []) (JArr [JNum NegInf]))
        = (NaN = Fin 0 \<or> NaN = NaN)"
    using nonArray_cards_neutral[where b' = "JStr ''46''" and ps = "[JNum NegInf]"
        and rt = noCoercion and y = NaN] inf str
    by blast
  then have third: "evaluateCardPoints noCoercion (JStr ''46'') (JArr [JNum NegInf])
       = evaluateCardPoints noCoercion (JArr []) (JArr [JNum NegInf])"
    by simp
  show ?thesis using first five second inf third by blast
qed

text \<open>
  The claim as stated fails: with \<open>playerCards = [5]\<close>, a \<open>bankerCards\<close> that is a string gives
  the card sub-score 0, and the empty array gives 0.3.
\<close>

theorem nonArray_bankerCards_differs:
  "map_sum id (cardScore \<circ> raw)
     (fst (predictNext noCoercion PredictionEngine
        (JObj [(''bankerCards'', JStr ''46''), (''playerCards'', JArr [rank 5])])))
     = Inr (Fin 0)
   \<and> map_sum id (cardScore \<circ> raw)
     (fst (predictNext noCoercion PredictionEngine
        (JObj [(''bankerCards'', JArr []), (''playerCards'', JArr [rank 5])])))
     = Inr (Fin (5404319552844595 / 18014398509481984))"
  by (simp add: run_text_cards run_no_banker_cards)

text \<open>
  Claim C3. The decision mapping: the side is BANKER exactly when the total score is
  greater than the literal 0.05; a total below -0.05 gives PLAYER; every total in the
  closed band from -0.05 to 0.05 gives PLAYER, and so do exactly 0.05, exactly -0.05 and
  exactly 0.
\<close>

theorem scoreToDecision_thresholds:
  "((side (scoreToDecision t) = ''BANKER'') = jgt t (lit 0.05))
   \<and> (jlt t (lit (- 0.05)) \<longrightarrow> side (scoreToDecision t) = ''PLAYER'')
   \<and> (jge t (lit (- 0.05)) \<and> jge (lit 0.05) t \<longrightarrow> side (scoreToDecision t) = ''PLAYER'')
   \<and> side (scoreToDecision (lit 0.05)) = ''PLAYER''
   \<and> side (scoreToDecision (lit (- 0.05))) = ''PLAYER''
   \<and> side (scoreToDecision (lit 0)) = ''PLAYER''"
  by (cases t) (simp_all add: scoreToDecision_def jgt_def jge_def lit_vals)

theorem scoreToDecision_thresholds_witness:
  "jge (Fin 0) (lit (- 0.05)) \<and> jge (lit 0.05) (Fin 0)
   \<and> side (scoreToDecision (Fin 0)) = ''PLAYER''
   \<and> jlt (Fin (- 1)) (lit (- 0.05)) \<and> side (scoreToDecision (Fin (- 1))) = ''PLAYER''
   \<and> jgt (Fin 1) (lit 0.05) \<and> side (scoreToDecision (Fin 1)) = ''BANKER''"
  using scoreToDecision_thresholds[of "Fin 0"] scoreToDecision_thresholds[of "Fin (- 1)"]
    scoreToDecision_thresholds[of "Fin 1"]
  by (simp add: jge_def jgt_def lit_vals)

text \<open>
  Claim C4. On an array the pattern sub-score is the one of the specification: 0 on the
  empty array, and otherwise the bias over at most the last 10 entries, counting BANKER
  and PLAYER only, plus the bonus of the most recent entry of the whole array. So an
  array scores as its last-10 slice does, and 15 BANKER entries score as 10 do.
\<close>

theorem evaluatePattern_spec:
  "evaluatePattern (JArr xs) = Inr (spec_patternScore xs)
   \<and> evaluatePattern (JArr xs) = evaluatePattern (JArr (recentWindow xs))
   \<and> recentWindow (replicate 15 BANKER) = replicate 10 BANKER
   \<and> evaluatePattern (JArr (replicate 15 BANKER)) = evaluatePattern (JArr (replicate 10 BANKER))"
proof -
  have window: "spec_patternScore (recentWindow xs) = spec_patternScore xs" for xs
    by (simp add: spec_patternScore_def recentWindow_idem recentWindow_Nil recentWindow_last)
  have slice: "recentWindow (replicate 15 BANKER) = replicate 10 BANKER"
    by (simp add: recentWindow_drop)
  have "evaluatePattern (JArr (replicate 15 BANKER))
          = evaluatePattern (JArr (recentWindow (replicate 15 BANKER)))"
    by (simp only: evaluatePattern_array window)
  then show ?thesis by (simp only: evaluatePattern_array window slice simp_thms)
qed

theorem evaluatePattern_spec_witness:
  "evaluatePattern (JArr [BANKER, TIE, PLAYER, BANKER])
     = Inr (spec_patternScore [BANKER, TIE, PLAYER, BANKER])
   \<and> spec_patternScore [BANKER, TIE, PLAYER, BANKER]
       = Fin (1951559838527215 / 4503599627370496)"
proof -
  have "spec_patternScore [BANKER, TIE, PLAYER, BANKER]
          = Fin (1951559838527215 / 4503599627370496)"
    by code_simp
  then show ?thesis
    using evaluatePattern_spec[of "[BANKER, TIE, PLAYER, BANKER]"] by simp
qed

text \<open>
  Claim C5. The card sub-score takes only the values -0.3, 0 and 0.3; it is -0.3 when the
  banker digit is greater than the player digit, 0.3 when it is less, and 0 otherwise
  (equal digits, both hands empty); on card ranks that are naturals the digit of a hand
  is the sum of the ranks, a rank of 10 or more counting 0, modulo 10; an entry that
  converts to NaN is skipped; \<open>[10,10,10]\<close> has digit 0 and \<open>[7,8]\<close> has digit 5.
\<close>

theorem cardPoints_digits:
  "evaluateCardPoints rt b p \<in> {Inl TypeError, Inr (lit (- 0.3)), Inr (lit 0), Inr (lit 0.3)}
   \<and> (baccaratPointSum rt bs = Inr x \<and> baccaratPointSum rt ps = Inr y \<longrightarrow>
        evaluateCardPoints rt (JArr bs) (JArr ps)
          = Inr (if jgt x y then lit (- 0.3) else if jlt x y then lit 0.3 else lit 0))
   \<and> (length vs < 2 ^ 32 \<longrightarrow>
        baccaratPointSum rt (map rank vs) = Inr (Fin (of_nat (spec_pointSum vs))))
   \<and> (toNumber rt c = Inr NaN \<longrightarrow>
        baccaratPointSum rt (cs @ c # cs') = baccaratPointSum rt (cs @ cs'))
   \<and> baccaratPointSum rt [rank 10, rank 10, rank 10] = Inr (Fin 0)
   \<and> baccaratPointSum rt [rank 7, rank 8] = Inr (Fin 5)
   \<and> evaluateCardPoints rt (JArr []) (JArr []) = Inr (lit 0)"
proof -
  have three: "evaluateCardPoints rt b p
                  \<in> {Inl TypeError, Inr (lit (- 0.3)), Inr (lit 0), Inr (lit 0.3)}"
  proof (cases "evaluateCardPoints rt b p")
    case (Inl e)
    then show ?thesis by (cases e) simp
  next
    case (Inr s)
    then show ?thesis
      by (auto simp: evaluateCardPoints_def Let_def split: if_splits sum.splits)
  qed
  have digits: "evaluateCardPoints rt (JArr bs) (JArr ps)
                  = Inr (if jgt x y then lit (- 0.3) else if jlt x y then lit 0.3 else lit 0)"
    if "baccaratPointSum rt bs = Inr x" and "baccaratPointSum rt ps = Inr y"
    using that digit_compare[OF digit_shape[OF that(1)] digit_shape[OF that(2)]]
    by (simp add: evaluateCardPoints_def Let_def)
  have ranks: "baccaratPointSum rt (map rank vs) = Inr (Fin (of_nat (spec_pointSum vs)))"
    if "length vs < 2 ^ 32"
    using that by (rule baccaratPointSum_ranks)
  have skip: "baccaratPointSum rt (cs @ c # cs') = baccaratPointSum rt (cs @ cs')"
    if "toNumber rt c = Inr NaN"
    using pointSumLoop_skip[OF that] by (simp add: baccaratPointSum_def)
  have tens: "baccaratPointSum rt [rank 10, rank 10, rank 10] = Inr (Fin 0)"
    using baccaratPointSum_ranks[of "[10, 10, 10]" rt]
    by (simp add: spec_pointSum_def cardPoint_def)
  have fifteen: "baccaratPointSum rt [rank 7, rank 8] = Inr (Fin 5)"
    using baccaratPointSum_ranks[of "[7, 8]" rt]
    by (simp add: spec_pointSum_def cardPoint_def)
  have empty: "evaluateCardPoints rt (JArr []) (JArr []) = Inr (lit 0)"
    using baccaratPointSum_ranks[of "[]" rt] decide_same[of "Fin 0"]
    by (simp add: evaluateCardPoints_def Let_def spec_pointSum_def)
  show ?thesis using three digits ranks skip tens fifteen empty by blast
qed

theorem cardPoints_digits_witness:
  "baccaratPointSum noCoercion [rank 7, rank 8] = Inr (Fin 5)
   \<and> baccaratPointSum noCoercion [rank 9] = Inr (Fin 9)
   \<and> evaluateCardPoints noCoercion (JArr [rank 7, rank 8]) (JArr [rank 9]) = Inr (lit 0.3)
   \<and> length [7, 8, 13 :: nat] < 2 ^ 32
   \<and> baccaratPointSum noCoercion (map rank [7, 8, 13]) = Inr (Fin 5)
   \<and> toNumber noCoercion JUndefined = Inr NaN
   \<and> baccaratPointSum noCoercion ([rank 7] @ JUndefined # [rank 8])
       = baccaratPointSum noCoercion ([rank 7] @ [rank 8])"
proof -
  have a: "baccaratPointSum noCoercion [rank 7, rank 8] = Inr (Fin 5)" by code_simp
  have b: "baccaratPointSum noCoercion [rank 9] = Inr (Fin 9)" by code_simp
  have c: "toNumber noCoercion JUndefined = Inr NaN" by simp
  have d: "length [7, 8, 13 :: nat] < 2 ^ 32" by simp
  have e: "spec_pointSum [7, 8, 13] = 5" by (simp add: spec_pointSum_def cardPoint_def)
  have f: "jgt (Fin 5) (Fin 9) = False" "jlt (Fin 5) (Fin 9) = True" by (simp_all add: jgt_def)
  show ?thesis
    using cardPoints_digits[of noCoercion JNull JNull "[rank 7, rank 8]" "Fin 5" "[rank 9]" "Fin 9"
        "[7, 8, 13]" JUndefined "[rank 7]" "[rank 8]"] a b c d e f
    by simp
qed

text \<open>
  Claim C6. The down-road sub-score depends only on the most recent entry of each of the
  three sequences: each contributes 0.5 for RED, -0.5 for BLUE and 0 otherwise, also when
  the sequence is empty or absent, whichever of the three it is, and the sum is divided
  by 1.5. A \<open>downRoad\<close> that is absent or falsy gives 0. Three RED entries give exactly
  1, three BLUE entries exactly -1.
\<close>

theorem evaluateDownRoad_last_entries:
  "evaluateDownRoad rt (downRoadOf es ss cs)
     = Inr (Fin (rnd ((spec_contribution es + spec_contribution ss + spec_contribution cs) / 1.5)))
   \<and> evaluateDownRoad rt (downRoadOf (es @ [x]) (ss @ [y]) (cs @ [z]))
       = evaluateDownRoad rt (downRoadOf [x] [y] [z])
   \<and> evaluateDownRoad rt (JObj [(''smallRoad'', JArr ss), (''cockroach'', JArr cs)])
       = evaluateDownRoad rt (downRoadOf [] ss cs)
   \<and> evaluateDownRoad rt (JObj []) = Inr (Fin 0)
   \<and> evaluateDownRoad rt JUndefined = Inr (Fin 0)
   \<and> evaluateDownRoad rt (downRoadOf [RED] [RED] [RED]) = Inr (Fin 1)
   \<and> evaluateDownRoad rt (downRoadOf [BLUE] [BLUE] [BLUE]) = Inr (Fin (- 1))
   \<and> ((map_of kvs ''bigEye'' = Some (JArr es') \<or> map_of kvs ''bigEye'' = None \<and> es' = [])
        \<and> (map_of kvs ''smallRoad'' = Some (JArr ss') \<or> map_of kvs ''smallRoad'' = None \<and> ss' = [])
        \<and> (map_of kvs ''cockroach'' = Some (JArr cs') \<or> map_of kvs ''cockroach'' = None \<and> cs' = [])
        \<longrightarrow> evaluateDownRoad rt (JObj kvs)
              = Inr (Fin (rnd ((spec_contribution es' + spec_contribution ss'
                                + spec_contribution cs') / 1.5))))
   \<and> (\<not> truthy w \<longrightarrow> evaluateDownRoad rt w = Inr (Fin 0))"
proof -
  have last: "spec_contribution (xs @ [v]) = spec_contribution [v]" for xs v
    by (simp add: spec_contribution_def)
  have absent: "evaluateDownRoad rt (JObj [(''smallRoad'', JArr ss), (''cockroach'', JArr cs)])
                  = evaluateDownRoad rt (downRoadOf [] ss cs)"
    by (simp add: evaluateDownRoad_def downRoadOf_def destructure_def Let_def
        del: jadd.simps jdiv.simps)
  have none: "evaluateDownRoad rt v = evaluateDownRoad rt (downRoadOf [] [] [])"
    if "v = JObj [] \<or> v = JUndefined" for v
    using that
    by (auto simp: evaluateDownRoad_def downRoadOf_def destructure_def Let_def
        simp del: jadd.simps jdiv.simps)
  have zero: "evaluateDownRoad rt (downRoadOf [] [] []) = Inr (Fin 0)"
    by (simp add: evaluateDownRoad_arrays spec_contribution_def)
  have red: "evaluateDownRoad rt (downRoadOf [RED] [RED] [RED]) = Inr (Fin 1)"
    by (simp add: evaluateDownRoad_arrays spec_contribution_def rnd_1)
  have "rnd (- 1) = - 1" using rnd_minus[of 1] by (simp add: rnd_1)
  then have blue: "evaluateDownRoad rt (downRoadOf [BLUE] [BLUE] [BLUE]) = Inr (Fin (- 1))"
    by (simp add: evaluateDownRoad_arrays spec_contribution_def RED_def BLUE_def)
  have fields: "evaluateDownRoad rt (JObj kvs)
              = Inr (Fin (rnd ((spec_contribution es' + spec_contribution ss'
                                + spec_contribution cs') / 1.5)))"
    if "(map_of kvs ''bigEye'' = Some (JArr es') \<or> map_of kvs ''bigEye'' = None \<and> es' = [])
        \<and> (map_of kvs ''smallRoad'' = Some (JArr ss') \<or> map_of kvs ''smallRoad'' = None \<and> ss' = [])
        \<and> (map_of kvs ''cockroach'' = Some (JArr cs') \<or> map_of kvs ''cockroach'' = None \<and> cs' = [])"
    using that by (intro evaluateDownRoad_fields destructure_field) blast+
  have falsy: "evaluateDownRoad rt w = Inr (Fin 0)" if "\<not> truthy w"
    using evaluateDownRoad_fields[of w "[]" "[]" "[]" rt] destructure_falsy[OF that]
    by (simp add: spec_contribution_def)
  have first: "evaluateDownRoad rt (downRoadOf es ss cs)
     = Inr (Fin (rnd ((spec_contribution es + spec_contribution ss + spec_contribution cs) / 1.5)))"
    by (rule evaluateDownRoad_arrays)
  have second: "evaluateDownRoad rt (downRoadOf (es @ [x]) (ss @ [y]) (cs @ [z]))
       = evaluateDownRoad rt (downRoadOf [x] [y] [z])"
    by (simp add: evaluateDownRoad_arrays last)
  have e1: "evaluateDownRoad rt (JObj []) = Inr (Fin 0)"
    using none[of "JObj []"] zero by simp
  have e2: "evaluateDownRoad rt JUndefined = Inr (Fin 0)"
    using none[of JUndefined] zero by simp
  show ?thesis
    using first second absent e1 e2 red blue fields falsy by blast
qed

theorem evaluateDownRoad_last_entries_witness:
  "evaluateDownRoad noCoercion (downRoadOf [RED, RED, RED, RED] [RED, RED, BLUE] [RED, RED, RED])
     = evaluateDownRoad noCoercion (downRoadOf [RED] [BLUE] [RED])
   \<and> evaluateDownRoad noCoercion (downRoadOf [RED] [BLUE] [RED])
       = Inr (Fin (6004799503160661 / 18014398509481984))
   \<and> map_of [(''bigEye'', JArr [RED])] ''bigEye'' = Some (JArr [RED])
   \<and> map_of [(''bigEye'', JArr [RED])] ''smallRoad'' = None
   \<and> map_of [(''bigEye'', JArr [RED])] ''cockroach'' = None
   \<and> evaluateDownRoad noCoercion (JObj [(''bigEye'', JArr [RED])])
       = Inr (Fin (6004799503160661 / 18014398509481984))
   \<and> map_of [(''cockroach'', JArr [RED, BLUE])] ''bigEye'' = None
   \<and> map_of [(''cockroach'', JArr [RED, BLUE])] ''smallRoad'' = None
   \<and> map_of [(''cockroach'', JArr [RED, BLUE])] ''cockroach'' = Some (JArr [RED, BLUE])
   \<and> evaluateDownRoad noCoercion (JObj [(''cockroach'', JArr [RED, BLUE])])
       = Inr (Fin (- (6004799503160661 / 18014398509481984)))
   \<and> \<not> truthy JNull
   \<and> evaluateDownRoad noCoercion JNull = Inr (Fin 0)"
proof -
  have a: "evaluateDownRoad noCoercion (downRoadOf [RED] [BLUE] [RED])
          = Inr (Fin (6004799503160661 / 18014398509481984))"
    by code_simp
  have b: "rnd ((spec_contribution [RED] + spec_contribution [] + spec_contribution []) / 1.5)
             = 6004799503160661 / 18014398509481984"
    by (simp add: spec_contribution_def rnd_third)
  have "rnd (- (1/3)) = - (6004799503160661 / 18014398509481984)"
    using rnd_minus[of "1/3"] by (simp add: rnd_third)
  then have c: "rnd ((spec_contribution [] + spec_contribution []
                      + spec_contribution [RED, BLUE]) / 1.5)
             = - (6004799503160661 / 18014398509481984)"
    by (simp add: spec_contribution_def RED_def BLUE_def)
  have m: "map_of [(''bigEye'', JArr [RED])] ''bigEye'' = Some (JArr [RED])"
    "map_of [(''bigEye'', JArr [RED])] ''smallRoad'' = None"
    "map_of [(''bigEye'', JArr [RED])] ''cockroach'' = None"
    "map_of [(''cockroach'', JArr [RED, BLUE])] ''bigEye'' = None"
    "map_of [(''cockroach'', JArr [RED, BLUE])] ''smallRoad'' = None"
    "map_of [(''cockroach'', JArr [RED, BLUE])] ''cockroach'' = Some (JArr [RED, BLUE])"
    by simp_all
  have t: "\<not> truthy JNull" by simp
  show ?thesis
    using evaluateDownRoad_last_entries[of noCoercion "[RED, RED, RED]" "[RED, RED]" "[RED, RED]"
        RED BLUE RED "[(''bigEye'', JArr [RED])]" "[RED]" "[]" "[]" JNull]
      evaluateDownRoad_last_entries[of noCoercion "[]" "[]" "[]"
        RED BLUE RED "[(''cockroach'', JArr [RED, BLUE])]" "[]" "[]" "[RED, BLUE]" JNull]
      a b c m t
    by (simp del: map_of.simps truthy.simps)
qed

text \<open>
  Claim C7, as amended. On the input of the claim, which is the input of the source's demo
  run, the recent window counts 7 BANKER and 3 PLAYER, so the bias is 0.4, the last bonus
  0.1 and the pattern score 0.5; both hands have digit 0 and the card score is 0; the
  down-road score is the double of \<open>(0.5 - 0.5 + 0.5) / 1.5\<close>; the total is the double 0.3,
  the side BANKER and the confidence 0.3.
\<close>

theorem demo_run:
  "predictNext rt PredictionEngine demoInput =
     (Inr \<lparr>side = ''BANKER'', sideText = zhuang, confidence = lit 0.3,
           raw = \<lparr>patternScore = lit 0.5, cardScore = lit 0,
                  downRoadScore = Fin (rnd (1/3)), totalScore = lit 0.3\<rparr>\<rparr>,
      PredictionEngine)
   \<and> count_list (recentWindow [BANKER, PLAYER, BANKER, BANKER, PLAYER,
                               BANKER, BANKER, PLAYER, BANKER, BANKER]) BANKER = 7
   \<and> count_list (recentWindow [BANKER, PLAYER, BANKER, BANKER, PLAYER,
                               BANKER, BANKER, PLAYER, BANKER, BANKER]) PLAYER = 3
   \<and> spec_bias (recentWindow [BANKER, PLAYER, BANKER, BANKER, PLAYER,
                              BANKER, BANKER, PLAYER, BANKER, BANKER]) = lit 0.4
   \<and> spec_lastBonus BANKER = lit 0.1
   \<and> baccaratPointSum rt [rank 4, rank 6] = Inr (Fin 0)
   \<and> baccaratPointSum rt [rank 9, rank 1] = Inr (Fin 0)"
proof -
  have run: "predictNext rt PredictionEngine demoInput =
     (Inr \<lparr>side = ''BANKER'', sideText = zhuang, confidence = lit 0.3,
           raw = \<lparr>patternScore = lit 0.5, cardScore = lit 0,
                  downRoadScore = Fin (rnd (1/3)), totalScore = lit 0.3\<rparr>\<rparr>,
      PredictionEngine)"
    by (simp add: run_demo lit_vals rnd_third)
  have w: "recentWindow [BANKER, PLAYER, BANKER, BANKER, PLAYER,
                         BANKER, BANKER, PLAYER, BANKER, BANKER]
             = [BANKER, PLAYER, BANKER, BANKER, PLAYER, BANKER, BANKER, PLAYER, BANKER, BANKER]"
    by (simp add: recentWindow_def)
  have seven: "count_list (recentWindow [BANKER, PLAYER, BANKER, BANKER, PLAYER,
                               BANKER, BANKER, PLAYER, BANKER, BANKER]) BANKER = 7"
    unfolding w by (simp add: BANKER_def PLAYER_def)
  have three: "count_list (recentWindow [BANKER, PLAYER, BANKER, BANKER, PLAYER,
                               BANKER, BANKER, PLAYER, BANKER, BANKER]) PLAYER = 3"
    unfolding w by (simp add: BANKER_def PLAYER_def)
  have "spec_bias [BANKER, PLAYER, BANKER, BANKER, PLAYER,
                   BANKER, BANKER, PLAYER, BANKER, BANKER] = lit 0.4"
    by code_simp
  then have bias: "spec_bias (recentWindow [BANKER, PLAYER, BANKER, BANKER, PLAYER,
                              BANKER, BANKER, PLAYER, BANKER, BANKER]) = lit 0.4"
    by (simp only: w)
  have bonus: "spec_lastBonus BANKER = lit 0.1"
    by (simp add: spec_lastBonus_def)
  have b1: "baccaratPointSum rt [rank 4, rank 6] = Inr (Fin 0)"
    using baccaratPointSum_ranks[of "[4, 6]" rt] by (simp add: spec_pointSum_def cardPoint_def)
  have b2: "baccaratPointSum rt [rank 9, rank 1] = Inr (Fin 0)"
    using baccaratPointSum_ranks[of "[9, 1]" rt]
    by (simp add: spec_pointSum_def cardPoint_def del: One_nat_def)
  from run seven three bias bonus b1 b2 show ?thesis by (intro conjI)
qed

theorem demo_run_witness:
  "map_sum id side (fst (predictNext noCoercion PredictionEngine demoInput)) = Inr ''BANKER''
   \<and> map_sum id confidence (fst (predictNext noCoercion PredictionEngine demoInput)) = Inr (lit 0.3)"
  using demo_run[of noCoercion] by simp

text \<open>
  The claim as stated, 6 BANKER and 4 PLAYER with a pattern score of 0.3 and a total of
  0.22, fails: the counts are 7 and 3, the pattern score 0.5, and the total 0.3, which is
  more than 0.07 away from 0.22.
\<close>

theorem demo_counts_differ:
  "count_list (recentWindow [BANKER, PLAYER, BANKER, BANKER, PLAYER,
                             BANKER, BANKER, PLAYER, BANKER, BANKER]) BANKER = 7
   \<and> count_list (recentWindow [BANKER, PLAYER, BANKER, BANKER, PLAYER,
                               BANKER, BANKER, PLAYER, BANKER, BANKER]) PLAYER = 3
   \<and> map_sum id (patternScore \<circ> raw) (fst (predictNext noCoercion PredictionEngine demoInput))
       = Inr (Fin (1/2))
   \<and> map_sum id (totalScore \<circ> raw) (fst (predictNext noCoercion PredictionEngine demoInput))
       = Inr (Fin (5404319552844595 / 18014398509481984))
   \<and> \<not> \<bar>5404319552844595 / 18014398509481984 - 0.22 :: rat\<bar> \<le> 0.07"
  by (simp add: run_demo recentWindow_def BANKER_def PLAYER_def)

text \<open>
  Claim C9, as amended. Whenever \<open>predictNext\<close> returns, the pattern score is at most the
  double \<open>1 + 0.1\<close> in magnitude, the card score is one of -0.3, 0 and 0.3, the down-road
  score is at most 1 in magnitude, and the total is at most 0.8300000000000001 in
  magnitude (the double \<open>467248461339689 / 2^49\<close>); so the total is less than 1 in
  magnitude, the clamp of the confidence is never active, and the confidence is the
  magnitude of the total.
\<close>

theorem totalScore_bounded:
  "predictNext rt PredictionEngine input = (Inr out, this') \<longrightarrow>
     (\<exists>p c d t. raw out = \<lparr>patternScore = Fin p, cardScore = Fin c, downRoadScore = Fin d,
                            totalScore = Fin t\<rparr>
        \<and> \<bar>p\<bar> \<le> 2476979795053773 / 2251799813685248
        \<and> Fin c \<in> {lit (- 0.3), lit 0, lit 0.3}
        \<and> \<bar>d\<bar> \<le> 1
        \<and> \<bar>t\<bar> \<le> 467248461339689 / 562949953421312
        \<and> \<bar>t\<bar> < 1
        \<and> confidence out = Fin \<bar>t\<bar>)"
proof
  assume call: "predictNext rt PredictionEngine input = (Inr out, this')"
  from call obtain p c d where r:
    "evaluatePattern (destructure input ''beadRoad'' (JArr [])) = Inr p"
    "evaluateCardPoints rt (destructure input ''bankerCards'' (JArr []))
       (destructure input ''playerCards'' (JArr [])) = Inr c"
    "evaluateDownRoad rt (destructure input ''downRoad'' (JObj [])) = Inr d"
    "raw out = \<lparr>patternScore = p, cardScore = c, downRoadScore = d,
               totalScore = jadd (jadd (jmul p (pattern (weights PredictionEngine)))
                                       (jmul c (cardPoints (weights PredictionEngine))))
                                 (jmul d (downRoad (weights PredictionEngine)))\<rparr>"
    "confidence out = Math_min (lit 1) (Math_abs (totalScore (raw out)))"
    by (rule predictNext_returns)
  from scores_of_engine[OF r(1,2,3)] obtain x y z t where b:
    "p = Fin x" "c = Fin y" "d = Fin z"
    "\<bar>x\<bar> \<le> 2476979795053773 / 2251799813685248" "\<bar>z\<bar> \<le> 1"
    "jadd (jadd (jmul p (pattern (weights PredictionEngine)))
                (jmul c (cardPoints (weights PredictionEngine))))
          (jmul d (downRoad (weights PredictionEngine))) = Fin t"
    "\<bar>t\<bar> \<le> 467248461339689 / 562949953421312"
    by blast
  have three: "c \<in> {lit (- 0.3), lit 0, lit 0.3}"
    using r(2) by (auto simp: evaluateCardPoints_def Let_def split: if_splits sum.splits)
  have lt: "\<bar>t\<bar> < 1" using b(7) by (rule small_total)
  have raw: "raw out = \<lparr>patternScore = Fin x, cardScore = Fin y, downRoadScore = Fin z,
                          totalScore = Fin t\<rparr>"
    using r(4) b(1,2,3,6) by (simp only:)
  have conf: "confidence out = Fin \<bar>t\<bar>"
    using r(5) confidence_of_total[OF lt] by (simp only: raw rawScores.simps)
  show "\<exists>p c d t. raw out = \<lparr>patternScore = Fin p, cardScore = Fin c, downRoadScore = Fin d,
                            totalScore = Fin t\<rparr>
        \<and> \<bar>p\<bar> \<le> 2476979795053773 / 2251799813685248
        \<and> Fin c \<in> {lit (- 0.3), lit 0, lit 0.3}
        \<and> \<bar>d\<bar> \<le> 1
        \<and> \<bar>t\<bar> \<le> 467248461339689 / 562949953421312
        \<and> \<bar>t\<bar> < 1
        \<and> confidence out = Fin \<bar>t\<bar>"
    using raw b(4,5,7) lt conf three[unfolded b(2)] by blast
qed

theorem totalScore_bounded_witness:
  "predictNext noCoercion PredictionEngine
     (JObj [(''beadRoad'', JArr [BANKER]), (''bankerCards'', JArr []),
            (''playerCards'', JArr [rank 5]), (''downRoad'', downRoadOf [RED] [RED] [RED])]) =
     (Inr \<lparr>side = ''BANKER'', sideText = zhuang,
           confidence = Fin (467248461339689 / 562949953421312),
           raw = \<lparr>patternScore = Fin (2476979795053773 / 2251799813685248),
                  cardScore = Fin (5404319552844595 / 18014398509481984),
                  downRoadScore = Fin 1,
                  totalScore = Fin (467248461339689 / 562949953421312)\<rparr>\<rparr>,
      PredictionEngine)
   \<and> \<bar>467248461339689 / 562949953421312 :: rat\<bar> \<le> 467248461339689 / 562949953421312
   \<and> \<bar>467248461339689 / 562949953421312 :: rat\<bar> < 1"
  using totalScore_bounded[of noCoercion
      "JObj [(''beadRoad'', JArr [BANKER]), (''bankerCards'', JArr []),
             (''playerCards'', JArr [rank 5]), (''downRoad'', downRoadOf [RED] [RED] [RED])]"
      "\<lparr>side = ''BANKER'', sideText = zhuang,
        confidence = Fin (467248461339689 / 562949953421312),
        raw = \<lparr>patternScore = Fin (2476979795053773 / 2251799813685248),
               cardScore = Fin (5404319552844595 / 18014398509481984),
               downRoadScore = Fin 1,
               totalScore = Fin (467248461339689 / 562949953421312)\<rparr>\<rparr>"
      PredictionEngine]
    run_extreme[of noCoercion]
  by auto

text \<open>
  The claim as stated, a total of at most 0.83 in magnitude, fails by the rounding of the
  double operations: one BANKER entry, a player hand of 5 against an empty banker hand,
  and three RED entries give the total 0.8300000000000001, which is greater than 0.83 and
  than the double the literal 0.83 denotes.
\<close>

theorem totalScore_exceeds_083:
  "map_sum id (totalScore \<circ> raw)
     (fst (predictNext noCoercion PredictionEngine
        (JObj [(''beadRoad'', JArr [BANKER]), (''bankerCards'', JArr []),
               (''playerCards'', JArr [rank 5]), (''downRoad'', downRoadOf [RED] [RED] [RED])])))
     = Inr (Fin (467248461339689 / 562949953421312))
   \<and> \<not> \<bar>467248461339689 / 562949953421312 :: rat\<bar> \<le> 0.83
   \<and> lit 0.83 = Fin (7475975381435023 / 9007199254740992)
   \<and> jgt (Fin (467248461339689 / 562949953421312)) (lit 0.83)"
proof -
  have l: "lit 0.83 = Fin (7475975381435023 / 9007199254740992)" by code_simp
  show ?thesis unfolding l by (simp add: run_extreme jgt_def)
qed

text \<open>
  Claim C10. Swapping the two hands negates the card sub-score: the sub-score of
  \<open>(p, b)\<close> is the negation of the sub-score of \<open>(b, p)\<close> (and a throw stays a throw);
  with the same value for both hands the sub-score is 0, unless a card entry makes the
  conversion to a number throw.
\<close>

theorem evaluateCardPoints_swap:
  "evaluateCardPoints rt p b = map_sum id jneg (evaluateCardPoints rt b p)
   \<and> evaluateCardPoints rt b b \<in> {Inr (lit 0), Inl TypeError}"
proof
  show "evaluateCardPoints rt p b = map_sum id jneg (evaluateCardPoints rt b p)"
  proof (cases "isArray b \<and> isArray p")
    case False
    then show ?thesis by (auto simp: evaluateCardPoints_def jneg_lits)
  next
    case True
    show ?thesis
    proof (cases "baccaratPointSum rt (elements b)")
      case bl: (Inl e)
      show ?thesis
      proof (cases "baccaratPointSum rt (elements p)")
        case (Inl e')
        with bl True show ?thesis by (cases e; cases e') (simp add: evaluateCardPoints_def)
      next
        case (Inr y)
        with bl True show ?thesis by (simp add: evaluateCardPoints_def)
      qed
    next
      case br: (Inr x)
      show ?thesis
      proof (cases "baccaratPointSum rt (elements p)")
        case (Inl e')
        with br True show ?thesis by (simp add: evaluateCardPoints_def)
      next
        case (Inr y)
        with br True show ?thesis
          using decide_swap[of y x] by (simp add: evaluateCardPoints_def Let_def)
      qed
    qed
  qed
  show "evaluateCardPoints rt b b \<in> {Inr (lit 0), Inl TypeError}"
  proof (cases "baccaratPointSum rt (elements b)")
    case (Inl e)
    then show ?thesis by (cases e) (simp add: evaluateCardPoints_def)
  next
    case (Inr x)
    then show ?thesis using decide_same[of x] by (simp add: evaluateCardPoints_def Let_def)
  qed
qed

theorem evaluateCardPoints_swap_witness:
  "evaluateCardPoints noCoercion (JArr [rank 7, rank 8]) (JArr [rank 9])
     = map_sum id jneg (evaluateCardPoints noCoercion (JArr [rank 9]) (JArr [rank 7, rank 8]))
   \<and> evaluateCardPoints noCoercion (JArr [rank 9]) (JArr [rank 7, rank 8]) = Inr (lit (- 0.3))
   \<and> evaluateCardPoints noCoercion (JArr [rank 7, rank 8]) (JArr [rank 9]) = Inr (lit 0.3)
   \<and> evaluateCardPoints noCoercion (JArr [rank 9]) (JArr [rank 9]) \<in> {Inr (lit 0), Inl TypeError}"
proof -
  have a: "evaluateCardPoints noCoercion (JArr [rank 9]) (JArr [rank 7, rank 8]) = Inr (lit (- 0.3))"
    by code_simp
  show ?thesis
    using evaluateCardPoints_swap[of noCoercion "JArr [rank 7, rank 8]" "JArr [rank 9]"]
      evaluateCardPoints_swap[of noCoercion "JArr [rank 9]" "JArr [rank 9]"] a
    by (simp add: jneg_lits)
qed

end
